theory Spec2Isabelle
  imports Main "HOL-Library.AList"
begin

section \<open>The data model of \<^verbatim>\<open>src/mcp-server/rds-handler.ts\<close>\<close>

text \<open>
  The handler keeps two registries, \<^verbatim>\<open>connections\<close> and \<^verbatim>\<open>tunnels\<close>, both plain
  JavaScript objects keyed by a generated id, and talks to four outside parties: the MySQL
  driver, the PostgreSQL driver, the SSH client with its local listener, and the AWS
  signer. The interfaces of the source become records, the union types become datatypes.
  Driver objects (a connection, an SSH client, a listener) are opaque to the handler and
  are represented by a number that identifies them.
\<close>

datatype engine = mysql | postgres

text \<open>
  What can be thrown. \<open>Error m\<close> is \<^verbatim>\<open>new Error(m)\<close> built by the handler itself;
  \<open>TypeError p\<close> is the runtime's complaint when property \<open>p\<close> is read from
  \<^verbatim>\<open>undefined\<close>; \<open>DriverError m\<close> stands for an error object that comes from a driver,
  the SSH client or the signer. The source's Vietnamese messages are written without
  their diacritics.
\<close>

datatype error = Error string | TypeError string | DriverError string

text \<open>Values of type \<^verbatim>\<open>any\<close> that travel as positional parameters and result cells.\<close>

datatype jsval = JNull | JBool bool | JNum int | JStr string

type_synonym rows = "jsval list list"

datatype private_key = KeyString string | KeyBuffer "nat list"

text \<open>The \<^verbatim>\<open>ssl\<close> entry of a driver configuration: a boolean, or the object
  \<^verbatim>\<open>{ rejectUnauthorized: true }\<close>.\<close>

datatype ssl_setting = Ssl bool | RejectUnauthorized

record AuthTokenParams =
  hostname :: string
  port :: nat
  username :: string
  region :: "string option"

record TunnelParams =
  sshHost :: string
  sshPort :: "nat option"
  sshUsername :: string
  sshPassword :: "string option"
  sshPrivateKey :: "private_key option"
  dbHost :: string
  dbPort :: nat
  localPort :: "nat option"

record TunnelInfo =
  sshClient :: nat
  server :: nat
  localHost :: string
  localPort :: nat
  dbHost :: string
  dbPort :: nat
  tunnelId :: string

record ConnectionInfo =
  connection :: nat
  engine :: engine
  tunnelId :: "string option"

text \<open>\<^verbatim>\<open>MySqlConnectParams\<close> and \<^verbatim>\<open>PostgresConnectParams\<close> declare the same fields.\<close>

record ConnectParams =
  host :: string
  port :: "nat option"
  user :: string
  password :: string
  database :: string
  useIAM :: "bool option"
  ssl :: "bool option"
  sshHost :: "string option"
  sshPort :: "nat option"
  sshUsername :: "string option"
  sshPassword :: "string option"
  sshPrivateKey :: "private_key option"

type_synonym MySqlConnectParams = ConnectParams
type_synonym PostgresConnectParams = ConnectParams

text \<open>The object literal \<^verbatim>\<open>authConfig\<close> handed to a driver. \<open>authPlugins\<close> says whether
  the \<^verbatim>\<open>mysql_clear_password\<close> plugin (which sends the token) is installed.\<close>

record AuthConfig =
  host :: string
  port :: nat
  user :: string
  password :: string
  database :: string
  ssl :: "ssl_setting option"
  authPlugins :: bool

text \<open>The object literal \<^verbatim>\<open>sshConfig\<close> of \<^verbatim>\<open>createTunnel\<close>.\<close>

record SshConfig =
  host :: string
  port :: nat
  username :: string
  password :: "string option"
  privateKey :: "private_key option"

text \<open>The source's field \<^verbatim>\<open>values\<close> is called \<open>vals\<close> here.\<close>

record QueryParams =
  connectionId :: string
  query :: string
  vals :: "jsval list option"

record Statement =
  sql :: string
  vals :: "jsval list option"

record TransactionParams =
  connectionId :: string
  queries :: "Statement list"

record ConnectionResult =
  connectionId :: string
  engine :: engine
  connected :: bool
  viaTunnel :: bool
  tunnelId :: "string option"

record CloseResult =
  success :: bool
  message :: string

subsection \<open>The outside world\<close>

text \<open>
  Every call that leaves the handler is an event: the call with its arguments. The
  handler's state carries the list of events so far, and the outside world is a family of
  oracles that answer a call from the events that preceded it, so a driver may answer the
  same call differently at different times. \<open>Console\<close> is \<^verbatim>\<open>console.log\<close>,
  \<^verbatim>\<open>console.warn\<close> or \<^verbatim>\<open>console.error\<close> with the message and the error object printed
  after it.
\<close>

datatype level = LogLevel | WarnLevel | ErrorLevel

datatype event =
    Console level string "error option"
  | DateNow
  | SignerGetAuthToken AuthTokenParams
  | SshConnect SshConfig
  | ForwardOut nat string nat string nat
  | ServerListen nat string
  | ServerClose nat
  | SshEnd nat
  | MysqlCreateConnection AuthConfig
  | PgConnect AuthConfig
  | MysqlQuery nat string "jsval list"
  | PgQuery nat string "jsval list option"
  | MysqlBeginTransaction nat
  | MysqlCommit nat
  | MysqlRollback nat
  | MysqlEnd nat
  | PgEnd nat

text \<open>
  \<open>RDS_SSL\<close> is \<^verbatim>\<open>process.env.RDS_SSL\<close>. \<open>now\<close> answers \<^verbatim>\<open>Date.now()\<close>. \<open>handle\<close>
  answers a call that yields a driver object (an SSH client once ready, a MySQL
  connection, a connected PostgreSQL client), \<open>bound\<close> a listen call (the listener and
  the port it bound), \<open>token\<close> the signer, \<open>rows\<close> a statement, and \<open>effect\<close> a call
  whose result the handler does not use (\<open>None\<close>: it returned).
\<close>

record env =
  RDS_SSL :: "string option"
  now :: "event list \<Rightarrow> nat"
  handle :: "event list \<Rightarrow> event \<Rightarrow> error + nat"
  bound :: "event list \<Rightarrow> event \<Rightarrow> error + nat \<times> nat"
  token :: "event list \<Rightarrow> event \<Rightarrow> error + string"
  rows :: "event list \<Rightarrow> event \<Rightarrow> error + rows"
  effect :: "event list \<Rightarrow> event \<Rightarrow> error option"

text \<open>The fields of class \<^verbatim>\<open>RdsHandler\<close>, and the events so far. A registry lists its
  own properties in insertion order, which is the order of \<^verbatim>\<open>Object.keys\<close> for keys that
  are not array indices (the generated ids never are).\<close>

record RdsHandler =
  region :: string
  connections :: "(string \<times> ConnectionInfo) list"
  tunnels :: "(string \<times> TunnelInfo) list"
  trace :: "event list"

definition emit :: "event \<Rightarrow> RdsHandler \<Rightarrow> RdsHandler" where
  "emit e s = s\<lparr>trace := trace s @ [e]\<rparr>"

definition ask :: "(event list \<Rightarrow> event \<Rightarrow> 'a) \<Rightarrow> event \<Rightarrow> RdsHandler \<Rightarrow> 'a \<times> RdsHandler" where
  "ask oracle e s = (oracle (trace s) e, emit e s)"

text \<open>\<^verbatim>\<open>try { ... } catch (error) { console.error(msg, error); throw error; }\<close>\<close>

definition catch_log :: "string \<Rightarrow> (error + 'a) \<times> RdsHandler \<Rightarrow> (error + 'a) \<times> RdsHandler" where
  "catch_log msg r =
     (case r of
        (Inl e, s) \<Rightarrow> (Inl e, emit (Console ErrorLevel msg (Some e)) s)
      | (Inr v, s) \<Rightarrow> (Inr v, s))"

subsection \<open>JavaScript semantics the handler relies on\<close>

text \<open>Truthiness: \<^verbatim>\<open>undefined\<close>, \<^verbatim>\<open>false\<close>, \<^verbatim>\<open>0\<close> and the empty string are falsy; a
  \<^verbatim>\<open>Buffer\<close> is an object and always truthy.\<close>

definition truthy_string :: "string option \<Rightarrow> bool" where
  "truthy_string x = (case x of None \<Rightarrow> False | Some s \<Rightarrow> s \<noteq> [])"

definition truthy_bool :: "bool option \<Rightarrow> bool" where
  "truthy_bool x = (case x of None \<Rightarrow> False | Some b \<Rightarrow> b)"

definition truthy_key :: "private_key option \<Rightarrow> bool" where
  "truthy_key x = (case x of None \<Rightarrow> False | Some (KeyString k) \<Rightarrow> k \<noteq> [] | Some (KeyBuffer b) \<Rightarrow> True)"

text \<open>\<^verbatim>\<open>port || 3306\<close>, \<^verbatim>\<open>sshPort || 22\<close>, \<^verbatim>\<open>localPort || 0\<close>\<close>

definition or_default :: "nat option \<Rightarrow> nat \<Rightarrow> nat" where
  "or_default x d = (case x of None \<Rightarrow> d | Some n \<Rightarrow> if n = 0 then d else n)"

text \<open>\<^verbatim>\<open>values || []\<close>: an array, even an empty one, is truthy.\<close>

definition or_empty :: "jsval list option \<Rightarrow> jsval list" where
  "or_empty x = (case x of None \<Rightarrow> [] | Some vs \<Rightarrow> vs)"

text \<open>The decimal rendering of a non-negative integer in a template literal (as
  JavaScript prints every integer below ten to the power of 21, a port or a millisecond
  count among them).\<close>

fun digits :: "nat \<Rightarrow> string" where
  "digits n = (if n < 10 then [''0123456789'' ! n] else digits (n div 10) @ [''0123456789'' ! (n mod 10)])"

declare digits.simps [simp del]

text \<open>
  Reading \<^verbatim>\<open>obj[key]\<close> from a registry created as \<^verbatim>\<open>{}\<close>: an own property if there is
  one, otherwise whatever \<^verbatim>\<open>Object.prototype\<close> holds under that name (a function, or the
  prototype itself for \<^verbatim>\<open>__proto__\<close>: truthy, and without any of the fields the handler
  reads from an entry), otherwise \<^verbatim>\<open>undefined\<close>.
\<close>

definition Object_prototype :: "string list" where
  "Object_prototype =
     [''constructor'', ''__defineGetter__'', ''__defineSetter__'', ''hasOwnProperty'',
      ''__lookupGetter__'', ''__lookupSetter__'', ''isPrototypeOf'', ''propertyIsEnumerable'',
      ''toString'', ''valueOf'', ''__proto__'', ''toLocaleString'']"

datatype 'a property = Own 'a | Inherited | Undefined

definition lookup :: "(string \<times> 'a) list \<Rightarrow> string \<Rightarrow> 'a property" where
  "lookup obj k =
     (case map_of obj k of
        Some v \<Rightarrow> Own v
      | None \<Rightarrow> if k \<in> set Object_prototype then Inherited else Undefined)"

section \<open>Teardown\<close>

text \<open>
  \<^verbatim>\<open>closeTunnel\<close> (lines 264-285). The callback handed to \<^verbatim>\<open>server.close\<close> only
  prints, later, and is left out. Whether \<^verbatim>\<open>server.close\<close> and \<^verbatim>\<open>sshClient.end\<close> can
  throw is left to the world; when one does, the statements after it, the \<^verbatim>\<open>delete\<close>
  among them, are not reached. On a name inherited from \<^verbatim>\<open>Object.prototype\<close> the guard
  passes, \<^verbatim>\<open>tunnel.server\<close> and \<^verbatim>\<open>tunnel.sshClient\<close> are undefined, and \<^verbatim>\<open>delete\<close>
  finds no own property.
\<close>

definition closeTunnel :: "env \<Rightarrow> string \<Rightarrow> RdsHandler \<Rightarrow> error option \<times> RdsHandler" where
  "closeTunnel env tid s =
     (case lookup (tunnels s) tid of
        Undefined \<Rightarrow>
          (None, emit (Console WarnLevel (''Tunnel '' @ tid @ '' khong ton tai hoac da dong'') None) s)
      | Inherited \<Rightarrow>
          (None, emit (Console LogLevel (''Da dong tunnel '' @ tid) None) s)
      | Own tunnel \<Rightarrow>
          (case ask (effect env) (ServerClose (server tunnel)) s of
             (Some e, s1) \<Rightarrow> (Some e, s1)
           | (None, s1) \<Rightarrow>
               (case ask (effect env) (SshEnd (sshClient tunnel)) s1 of
                  (Some e, s2) \<Rightarrow> (Some e, s2)
                | (None, s2) \<Rightarrow>
                    (let s3 = emit (Console LogLevel ''Da dong ket noi SSH client'' None) s2;
                         s4 = s3\<lparr>tunnels := AList.delete tid (tunnels s3)\<rparr>
                     in (None, emit (Console LogLevel (''Da dong tunnel '' @ tid) None) s4)))))"

text \<open>The driver call that ends a session: \<^verbatim>\<open>mysqlConn.end()\<close> or \<^verbatim>\<open>pgConn.end()\<close>.\<close>

definition end_call :: "ConnectionInfo \<Rightarrow> event" where
  "end_call connInfo =
     (if ConnectionInfo.engine connInfo = mysql then MysqlEnd (connection connInfo)
      else PgEnd (connection connInfo))"

text \<open>
  \<^verbatim>\<open>closeConnection\<close> (lines 658-688). On an inherited name \<^verbatim>\<open>connInfo.engine\<close> is
  undefined, the PostgreSQL branch is taken and \<^verbatim>\<open>pgConn.end()\<close> reads \<^verbatim>\<open>end\<close> from
  \<^verbatim>\<open>undefined\<close>.
\<close>

definition closeConnection :: "env \<Rightarrow> string \<Rightarrow> RdsHandler \<Rightarrow> (error + CloseResult) \<times> RdsHandler" where
  "closeConnection env cid s =
     catch_log ''Error closing RDS connection:''
       (case lookup (connections s) cid of
          Undefined \<Rightarrow> (Inl (Error (''Connection '' @ cid @ '' not found or already closed'')), s)
        | Inherited \<Rightarrow> (Inl (TypeError ''end''), s)
        | Own connInfo \<Rightarrow>
            (case ask (effect env) (end_call connInfo) s of
               (Some e, s1) \<Rightarrow> (Inl e, s1)
             | (None, s1) \<Rightarrow>
                 (case (case ConnectionInfo.tunnelId connInfo of
                          None \<Rightarrow> (None, s1)
                        | Some tid \<Rightarrow>
                            if tid \<noteq> [] \<and> lookup (tunnels s1) tid \<noteq> Undefined
                            then closeTunnel env tid s1 else (None, s1)) of
                    (Some e, s2) \<Rightarrow> (Inl e, s2)
                  | (None, s2) \<Rightarrow>
                      (Inr \<lparr>success = True, message = ''Da dong ket noi '' @ cid\<rparr>,
                       s2\<lparr>connections := AList.delete cid (connections s2)\<rparr>))))"

text \<open>
  \<^verbatim>\<open>close\<close> (lines 705-730): the two sweeps, each over the keys the registry had when
  the sweep started. Neither loop lets an error out, so the outer \<^verbatim>\<open>catch\<close> has nothing
  to catch.
\<close>

fun close_connections :: "env \<Rightarrow> string list \<Rightarrow> RdsHandler \<Rightarrow> RdsHandler" where
  "close_connections env [] s = s"
| "close_connections env (cid # cids) s =
     (case closeConnection env cid s of
        (Inr r, s1) \<Rightarrow> close_connections env cids s1
      | (Inl err, s1) \<Rightarrow>
          close_connections env cids
            (emit (Console ErrorLevel (''Loi dong ket noi '' @ cid @ '':'') (Some err)) s1))"

fun close_tunnels :: "env \<Rightarrow> string list \<Rightarrow> RdsHandler \<Rightarrow> RdsHandler" where
  "close_tunnels env [] s = s"
| "close_tunnels env (tid # tids) s =
     (case closeTunnel env tid s of
        (None, s1) \<Rightarrow> close_tunnels env tids s1
      | (Some err, s1) \<Rightarrow>
          close_tunnels env tids
            (emit (Console ErrorLevel (''Loi dong tunnel '' @ tid @ '':'') (Some err)) s1))"

definition close :: "env \<Rightarrow> RdsHandler \<Rightarrow> (error + CloseResult) \<times> RdsHandler" where
  "close env s =
     catch_log ''Error closing all RDS connections:''
       (let s1 = close_connections env (map fst (connections s)) s;
            s2 = close_tunnels env (map fst (tunnels s1)) s1
        in (Inr \<lparr>success = True, message = ''Da dong tat ca ket noi va tunnel''\<rparr>, s2))"

section \<open>Queries and transactions\<close>

text \<open>The driver call for one statement with its positional values.\<close>

definition query_call :: "ConnectionInfo \<Rightarrow> string \<Rightarrow> jsval list option \<Rightarrow> event" where
  "query_call connInfo q vs =
     (if ConnectionInfo.engine connInfo = mysql then MysqlQuery (connection connInfo) q (or_empty vs)
      else PgQuery (connection connInfo) q (Some (or_empty vs)))"

text \<open>\<^verbatim>\<open>executeQuery\<close> (lines 572-601).\<close>

definition executeQuery :: "env \<Rightarrow> QueryParams \<Rightarrow> RdsHandler \<Rightarrow> (error + rows) \<times> RdsHandler" where
  "executeQuery env params s =
     catch_log ''Error executing query on RDS:''
       (case lookup (connections s) (QueryParams.connectionId params) of
          Undefined \<Rightarrow>
            (Inl (Error (''Connection '' @ QueryParams.connectionId params @ '' not found or closed'')), s)
        | Inherited \<Rightarrow> (Inl (TypeError ''query''), s)
        | Own connInfo \<Rightarrow>
            ask (rows env) (query_call connInfo (query params) (QueryParams.vals params)) s)"

text \<open>The \<^verbatim>\<open>for (const query of queries)\<close> loop of a transaction: each statement in turn,
  its rows pushed onto \<open>results\<close>; the first statement that throws ends the loop.\<close>

fun run_queries ::
  "env \<Rightarrow> ConnectionInfo \<Rightarrow> Statement list \<Rightarrow> rows list \<Rightarrow> RdsHandler \<Rightarrow> (error + rows list) \<times> RdsHandler" where
  "run_queries env connInfo [] results s = (Inr results, s)"
| "run_queries env connInfo (q # qs) results s =
     (case ask (rows env) (query_call connInfo (sql q) (Statement.vals q)) s of
        (Inl e, s1) \<Rightarrow> (Inl e, s1)
      | (Inr r, s1) \<Rightarrow> run_queries env connInfo qs (results @ [r]) s1)"

text \<open>The three calls that frame a transaction: \<^verbatim>\<open>beginTransaction\<close>, \<^verbatim>\<open>commit\<close>,
  \<^verbatim>\<open>rollback\<close> on MySQL, and the one-argument \<^verbatim>\<open>query('BEGIN')\<close>, \<^verbatim>\<open>query('COMMIT')\<close>,
  \<^verbatim>\<open>query('ROLLBACK')\<close> on PostgreSQL.\<close>

definition begin_call :: "ConnectionInfo \<Rightarrow> event" where
  "begin_call connInfo =
     (if ConnectionInfo.engine connInfo = mysql then MysqlBeginTransaction (connection connInfo)
      else PgQuery (connection connInfo) ''BEGIN'' None)"

definition commit_call :: "ConnectionInfo \<Rightarrow> event" where
  "commit_call connInfo =
     (if ConnectionInfo.engine connInfo = mysql then MysqlCommit (connection connInfo)
      else PgQuery (connection connInfo) ''COMMIT'' None)"

definition rollback_call :: "ConnectionInfo \<Rightarrow> event" where
  "rollback_call connInfo =
     (if ConnectionInfo.engine connInfo = mysql then MysqlRollback (connection connInfo)
      else PgQuery (connection connInfo) ''ROLLBACK'' None)"

text \<open>The inner \<^verbatim>\<open>try\<close> block: the loop, then the commit.\<close>

definition try_body ::
  "env \<Rightarrow> ConnectionInfo \<Rightarrow> Statement list \<Rightarrow> RdsHandler \<Rightarrow> (error + rows list) \<times> RdsHandler" where
  "try_body env connInfo qs s =
     (case run_queries env connInfo qs [] s of
        (Inl e, s1) \<Rightarrow> (Inl e, s1)
      | (Inr results, s1) \<Rightarrow>
          (case ask (effect env) (commit_call connInfo) s1 of
             (Some e, s2) \<Rightarrow> (Inl e, s2)
           | (None, s2) \<Rightarrow> (Inr results, s2)))"

text \<open>
  \<^verbatim>\<open>executeTransaction\<close> (lines 606-653). The two engine branches differ only in the
  calls that frame the transaction. The inner \<^verbatim>\<open>catch (err)\<close> awaits the rollback and then
  throws \<^verbatim>\<open>err\<close>; a rollback that throws leaves the handler before \<^verbatim>\<open>throw err\<close> is
  reached. On an inherited name the PostgreSQL branch reads \<^verbatim>\<open>query\<close> from
  \<^verbatim>\<open>undefined\<close>.
\<close>

definition executeTransaction ::
  "env \<Rightarrow> TransactionParams \<Rightarrow> RdsHandler \<Rightarrow> (error + rows list) \<times> RdsHandler" where
  "executeTransaction env params s =
     catch_log ''Error executing transaction on RDS:''
       (case lookup (connections s) (TransactionParams.connectionId params) of
          Undefined \<Rightarrow>
            (Inl (Error (''Connection '' @ TransactionParams.connectionId params @ '' not found or closed'')), s)
        | Inherited \<Rightarrow> (Inl (TypeError ''query''), s)
        | Own connInfo \<Rightarrow>
            (case ask (effect env) (begin_call connInfo) s of
               (Some e, s1) \<Rightarrow> (Inl e, s1)
             | (None, s1) \<Rightarrow>
                 (case try_body env connInfo (queries params) s1 of
                    (Inr results, s2) \<Rightarrow> (Inr results, s2)
                  | (Inl err, s2) \<Rightarrow>
                      (case ask (effect env) (rollback_call connInfo) s2 of
                         (Some e, s3) \<Rightarrow> (Inl e, s3)
                       | (None, s3) \<Rightarrow> (Inl err, s3)))))"

section \<open>Connecting\<close>

text \<open>
  \<^verbatim>\<open>getAuthToken\<close> (lines 147-171): the signer is built with \<^verbatim>\<open>region || this.region\<close>
  and asked for a token. The promise it returns is not awaited inside the \<^verbatim>\<open>try\<close>, so a
  failure of the signer reaches the caller without being printed here.
\<close>

definition getAuthToken :: "env \<Rightarrow> AuthTokenParams \<Rightarrow> RdsHandler \<Rightarrow> (error + string) \<times> RdsHandler" where
  "getAuthToken env params s =
     ask (token env)
       (SignerGetAuthToken
          (params\<lparr>AuthTokenParams.region :=
             Some (case AuthTokenParams.region params of
                     None \<Rightarrow> RdsHandler.region s
                   | Some r \<Rightarrow> if r = [] then RdsHandler.region s else r)\<rparr>)) s"

text \<open>
  \<^verbatim>\<open>createTunnel\<close> (lines 178-258), with the callbacks in the order in which they fire:
  the credential check, \<^verbatim>\<open>sshClient.connect\<close> (answered by \<^verbatim>\<open>'ready'\<close> or
  \<^verbatim>\<open>'error'\<close>), \<^verbatim>\<open>forwardOut\<close>, \<^verbatim>\<open>server.listen\<close>, and on success the registration
  under \<^verbatim>\<open>tunnel_${Date.now()}\<close>. On the two failure paths that call
  \<^verbatim>\<open>sshClient.end()\<close> the promise is rejected with the original error.
\<close>

definition createTunnel :: "env \<Rightarrow> TunnelParams \<Rightarrow> RdsHandler \<Rightarrow> (error + TunnelInfo) \<times> RdsHandler" where
  "createTunnel env params s =
     (if \<not> truthy_string (TunnelParams.sshPassword params) \<and> \<not> truthy_key (TunnelParams.sshPrivateKey params)
      then (Inl (Error ''Thieu mat khau hoac private key SSH''), s)
      else
        (let sshConfig =
               \<lparr>SshConfig.host = TunnelParams.sshHost params,
                port = or_default (TunnelParams.sshPort params) 22,
                username = TunnelParams.sshUsername params,
                password = (if truthy_string (TunnelParams.sshPassword params)
                            then TunnelParams.sshPassword params else None),
                privateKey = (if truthy_string (TunnelParams.sshPassword params)
                              then None else TunnelParams.sshPrivateKey params)\<rparr>;
             src_port = or_default (TunnelParams.localPort params) 0
         in case ask (handle env) (SshConnect sshConfig) s of
              (Inl err, s1) \<Rightarrow> (Inl err, emit (Console ErrorLevel ''Loi ket noi SSH:'' (Some err)) s1)
            | (Inr client, s1) \<Rightarrow>
                (case ask (effect env)
                        (ForwardOut client ''127.0.0.1'' src_port
                           (TunnelParams.dbHost params) (TunnelParams.dbPort params)) s1 of
                   (Some err, s2) \<Rightarrow> (Inl err, emit (SshEnd client) s2)
                 | (None, s2) \<Rightarrow>
                     (case ask (bound env) (ServerListen src_port ''127.0.0.1'') s2 of
                        (Inl err, s3) \<Rightarrow> (Inl err, emit (SshEnd client) s3)
                      | (Inr (srv, p), s3) \<Rightarrow>
                          (let s4 = emit (Console LogLevel
                                      (''SSH tunnel duoc thiet lap: 127.0.0.1:'' @ digits p @ '' -> ''
                                        @ TunnelParams.dbHost params @ '':'' @ digits (TunnelParams.dbPort params))
                                      None) s3;
                               t = now env (trace s4);
                               s5 = emit DateNow s4;
                               tid = ''tunnel_'' @ digits t;
                               tunnel = \<lparr>sshClient = client, server = srv, localHost = ''127.0.0.1'',
                                         localPort = p, dbHost = TunnelParams.dbHost params,
                                         dbPort = TunnelParams.dbPort params, tunnelId = tid\<rparr>
                           in (Inr tunnel, s5\<lparr>tunnels := AList.update tid tunnel (tunnels s5)\<rparr>))))))"

text \<open>
  The guard \<^verbatim>\<open>if (!sshHost || !sshUsername) throw ...\<close> of the two tunneled connects and
  the argument they hand to \<^verbatim>\<open>createTunnel\<close>; \<open>dflt\<close> is the engine's default port.
\<close>

definition tunnel_params :: "ConnectParams \<Rightarrow> nat \<Rightarrow> TunnelParams option" where
  "tunnel_params params dflt =
     (if \<not> truthy_string (ConnectParams.sshHost params) \<or> \<not> truthy_string (ConnectParams.sshUsername params)
      then None
      else (case (ConnectParams.sshHost params, ConnectParams.sshUsername params) of
              (Some h, Some u) \<Rightarrow>
                Some \<lparr>TunnelParams.sshHost = h, sshPort = ConnectParams.sshPort params, sshUsername = u,
                      sshPassword = ConnectParams.sshPassword params,
                      sshPrivateKey = ConnectParams.sshPrivateKey params,
                      dbHost = ConnectParams.host params,
                      dbPort = or_default (ConnectParams.port params) dflt,
                      localPort = Some 0\<rparr>
            | _ \<Rightarrow> None))"

text \<open>The argument of the token request, the same in all four connects:
  \<^verbatim>\<open>{ hostname: host, port: port || dflt, username: user }\<close>.\<close>

definition token_params :: "ConnectParams \<Rightarrow> nat \<Rightarrow> AuthTokenParams" where
  "token_params params dflt =
     \<lparr>hostname = ConnectParams.host params, port = or_default (ConnectParams.port params) dflt,
      username = ConnectParams.user params, region = None\<rparr>"

text \<open>\<^verbatim>\<open>connectToMySqlWithTunnel\<close> (lines 290-366).\<close>

definition connectToMySqlWithTunnel ::
  "env \<Rightarrow> MySqlConnectParams \<Rightarrow> RdsHandler \<Rightarrow> (error + ConnectionResult) \<times> RdsHandler" where
  "connectToMySqlWithTunnel env params s =
     catch_log ''Loi ket noi MySQL qua SSH tunnel:''
       (case tunnel_params params 3306 of
          None \<Rightarrow> (Inl (Error ''Missing SSH connection parameters''), s)
        | Some tp \<Rightarrow>
            (case createTunnel env tp s of
               (Inl e, s1) \<Rightarrow> (Inl e, s1)
             | (Inr tunnel, s1) \<Rightarrow>
                 (case (if truthy_bool (useIAM params)
                        then (case getAuthToken env (token_params params 3306) s1 of
                                (Inl e, s2) \<Rightarrow> (Inl e, s2)
                              | (Inr tok, s2) \<Rightarrow>
                                  (Inr \<lparr>AuthConfig.host = localHost tunnel, port = TunnelInfo.localPort tunnel,
                                        user = ConnectParams.user params, password = tok,
                                        database = ConnectParams.database params,
                                        ssl = Some RejectUnauthorized, authPlugins = True\<rparr>, s2))
                        else (Inr \<lparr>AuthConfig.host = localHost tunnel, port = TunnelInfo.localPort tunnel,
                                   user = ConnectParams.user params,
                                   password = ConnectParams.password params,
                                   database = ConnectParams.database params,
                                   ssl = None, authPlugins = False\<rparr>, s1)) of
                    (Inl e, s2) \<Rightarrow> (Inl e, s2)
                  | (Inr authConfig, s2) \<Rightarrow>
                      (case ask (handle env) (MysqlCreateConnection authConfig) s2 of
                         (Inl e, s3) \<Rightarrow> (Inl e, s3)
                       | (Inr conn, s3) \<Rightarrow>
                           (let t = now env (trace s3);
                                s4 = emit DateNow s3;
                                cid = ''mysql_ssh_'' @ ConnectParams.host params @ ''_''
                                        @ ConnectParams.database params @ ''_'' @ digits t
                            in (Inr \<lparr>ConnectionResult.connectionId = cid, engine = mysql, connected = True,
                                     viaTunnel = True, tunnelId = Some (TunnelInfo.tunnelId tunnel)\<rparr>,
                                s4\<lparr>connections :=
                                     AList.update cid
                                       \<lparr>connection = conn, engine = mysql,
                                        tunnelId = Some (TunnelInfo.tunnelId tunnel)\<rparr>
                                       (connections s4)\<rparr>))))))"

text \<open>\<^verbatim>\<open>connectToMySql\<close> (lines 371-427). The tunneled call is returned from outside
  the \<^verbatim>\<open>try\<close>.\<close>

definition connectToMySql ::
  "env \<Rightarrow> MySqlConnectParams \<Rightarrow> RdsHandler \<Rightarrow> (error + ConnectionResult) \<times> RdsHandler" where
  "connectToMySql env params s =
     (if truthy_string (ConnectParams.sshHost params) then connectToMySqlWithTunnel env params s
      else
        catch_log ''Error connecting to MySQL RDS:''
          (case (if truthy_bool (useIAM params)
                 then (case getAuthToken env (token_params params 3306) s of
                         (Inl e, s1) \<Rightarrow> (Inl e, s1)
                       | (Inr tok, s1) \<Rightarrow>
                           (Inr \<lparr>AuthConfig.host = ConnectParams.host params,
                                 port = or_default (ConnectParams.port params) 3306,
                                 user = ConnectParams.user params, password = tok,
                                 database = ConnectParams.database params,
                                 ssl = Some RejectUnauthorized, authPlugins = True\<rparr>, s1))
                 else (Inr \<lparr>AuthConfig.host = ConnectParams.host params,
                            port = or_default (ConnectParams.port params) 3306,
                            user = ConnectParams.user params,
                            password = ConnectParams.password params,
                            database = ConnectParams.database params,
                            ssl = None, authPlugins = False\<rparr>, s)) of
             (Inl e, s1) \<Rightarrow> (Inl e, s1)
           | (Inr authConfig, s1) \<Rightarrow>
               (case ask (handle env) (MysqlCreateConnection authConfig) s1 of
                  (Inl e, s2) \<Rightarrow> (Inl e, s2)
                | (Inr conn, s2) \<Rightarrow>
                    (let t = now env (trace s2);
                         s3 = emit DateNow s2;
                         cid = ''mysql_'' @ ConnectParams.host params @ ''_''
                                 @ ConnectParams.database params @ ''_'' @ digits t
                     in (Inr \<lparr>ConnectionResult.connectionId = cid, engine = mysql, connected = True,
                              viaTunnel = False, tunnelId = None\<rparr>,
                         s3\<lparr>connections :=
                              AList.update cid \<lparr>connection = conn, engine = mysql, tunnelId = None\<rparr>
                                (connections s3)\<rparr>)))))"

text \<open>\<^verbatim>\<open>connectToPostgresWithTunnel\<close> (lines 432-507). Without IAM the \<^verbatim>\<open>ssl\<close> entry is
  \<^verbatim>\<open>ssl || process.env.RDS_SSL === 'true'\<close>.\<close>

definition connectToPostgresWithTunnel ::
  "env \<Rightarrow> PostgresConnectParams \<Rightarrow> RdsHandler \<Rightarrow> (error + ConnectionResult) \<times> RdsHandler" where
  "connectToPostgresWithTunnel env params s =
     catch_log ''Loi ket noi PostgreSQL qua SSH tunnel:''
       (case tunnel_params params 5432 of
          None \<Rightarrow> (Inl (Error ''Missing SSH connection parameters''), s)
        | Some tp \<Rightarrow>
            (case createTunnel env tp s of
               (Inl e, s1) \<Rightarrow> (Inl e, s1)
             | (Inr tunnel, s1) \<Rightarrow>
                 (case (if truthy_bool (useIAM params)
                        then (case getAuthToken env (token_params params 5432) s1 of
                                (Inl e, s2) \<Rightarrow> (Inl e, s2)
                              | (Inr tok, s2) \<Rightarrow>
                                  (Inr \<lparr>AuthConfig.host = localHost tunnel, port = TunnelInfo.localPort tunnel,
                                        user = ConnectParams.user params, password = tok,
                                        database = ConnectParams.database params,
                                        ssl = Some RejectUnauthorized, authPlugins = False\<rparr>, s2))
                        else (Inr \<lparr>AuthConfig.host = localHost tunnel, port = TunnelInfo.localPort tunnel,
                                   user = ConnectParams.user params,
                                   password = ConnectParams.password params,
                                   database = ConnectParams.database params,
                                   ssl = Some (Ssl (truthy_bool (ConnectParams.ssl params)
                                                    \<or> RDS_SSL env = Some ''true'')),
                                   authPlugins = False\<rparr>, s1)) of
                    (Inl e, s2) \<Rightarrow> (Inl e, s2)
                  | (Inr authConfig, s2) \<Rightarrow>
                      (case ask (handle env) (PgConnect authConfig) s2 of
                         (Inl e, s3) \<Rightarrow> (Inl e, s3)
                       | (Inr conn, s3) \<Rightarrow>
                           (let t = now env (trace s3);
                                s4 = emit DateNow s3;
                                cid = ''postgres_ssh_'' @ ConnectParams.host params @ ''_''
                                        @ ConnectParams.database params @ ''_'' @ digits t
                            in (Inr \<lparr>ConnectionResult.connectionId = cid, engine = postgres, connected = True,
                                     viaTunnel = True, tunnelId = Some (TunnelInfo.tunnelId tunnel)\<rparr>,
                                s4\<lparr>connections :=
                                     AList.update cid
                                       \<lparr>connection = conn, engine = postgres,
                                        tunnelId = Some (TunnelInfo.tunnelId tunnel)\<rparr>
                                       (connections s4)\<rparr>))))))"

text \<open>\<^verbatim>\<open>connectToPostgres\<close> (lines 512-567).\<close>

definition connectToPostgres ::
  "env \<Rightarrow> PostgresConnectParams \<Rightarrow> RdsHandler \<Rightarrow> (error + ConnectionResult) \<times> RdsHandler" where
  "connectToPostgres env params s =
     (if truthy_string (ConnectParams.sshHost params) then connectToPostgresWithTunnel env params s
      else
        catch_log ''Error connecting to PostgreSQL RDS:''
          (case (if truthy_bool (useIAM params)
                 then (case getAuthToken env (token_params params 5432) s of
                         (Inl e, s1) \<Rightarrow> (Inl e, s1)
                       | (Inr tok, s1) \<Rightarrow>
                           (Inr \<lparr>AuthConfig.host = ConnectParams.host params,
                                 port = or_default (ConnectParams.port params) 5432,
                                 user = ConnectParams.user params, password = tok,
                                 database = ConnectParams.database params,
                                 ssl = Some RejectUnauthorized, authPlugins = False\<rparr>, s1))
                 else (Inr \<lparr>AuthConfig.host = ConnectParams.host params,
                            port = or_default (ConnectParams.port params) 5432,
                            user = ConnectParams.user params,
                            password = ConnectParams.password params,
                            database = ConnectParams.database params,
                            ssl = Some (Ssl (truthy_bool (ConnectParams.ssl params)
                                             \<or> RDS_SSL env = Some ''true'')),
                            authPlugins = False\<rparr>, s)) of
             (Inl e, s1) \<Rightarrow> (Inl e, s1)
           | (Inr authConfig, s1) \<Rightarrow>
               (case ask (handle env) (PgConnect authConfig) s1 of
                  (Inl e, s2) \<Rightarrow> (Inl e, s2)
                | (Inr conn, s2) \<Rightarrow>
                    (let t = now env (trace s2);
                         s3 = emit DateNow s2;
                         cid = ''postgres_'' @ ConnectParams.host params @ ''_''
                                 @ ConnectParams.database params @ ''_'' @ digits t
                     in (Inr \<lparr>ConnectionResult.connectionId = cid, engine = postgres, connected = True,
                              viaTunnel = False, tunnelId = None\<rparr>,
                         s3\<lparr>connections :=
                              AList.update cid \<lparr>connection = conn, engine = postgres, tunnelId = None\<rparr>
                                (connections s3)\<rparr>)))))"

text \<open>The two connect actions that \<^verbatim>\<open>registerHandlers\<close> (lines 693-700) exposes,
  \<^verbatim>\<open>rdsConnectMySql\<close> and \<^verbatim>\<open>rdsConnectPostgres\<close>, by engine, and the port each
  falls back to.\<close>

definition connect ::
  "engine \<Rightarrow> env \<Rightarrow> ConnectParams \<Rightarrow> RdsHandler \<Rightarrow> (error + ConnectionResult) \<times> RdsHandler" where
  "connect eng = (case eng of mysql \<Rightarrow> connectToMySql | postgres \<Rightarrow> connectToPostgres)"

definition default_port :: "engine \<Rightarrow> nat" where
  "default_port eng = (case eng of mysql \<Rightarrow> 3306 | postgres \<Rightarrow> 5432)"

section \<open>What a call adds to the outside world's record\<close>

definition new_events :: "RdsHandler \<Rightarrow> RdsHandler \<Rightarrow> event list" where
  "new_events s s' = drop (length (trace s)) (trace s')"

text \<open>The driver calls for the statements of a transaction, in the caller's order.\<close>

definition statement_calls :: "ConnectionInfo \<Rightarrow> Statement list \<Rightarrow> event list" where
  "statement_calls connInfo qs = map (\<lambda>q. query_call connInfo (sql q) (Statement.vals q)) qs"

text \<open>The driver configurations with which sessions were opened, in order.\<close>

definition session_configs :: "event list \<Rightarrow> (engine \<times> AuthConfig) list" where
  "session_configs evs =
     concat (map (\<lambda>e. case e of MysqlCreateConnection c \<Rightarrow> [(mysql, c)]
                           | PgConnect c \<Rightarrow> [(postgres, c)]
                           | _ \<Rightarrow> []) evs)"

text \<open>The calls that set a tunnel up, and the calls that take one down.\<close>

definition is_tunnel_call :: "event \<Rightarrow> bool" where
  "is_tunnel_call e =
     (case e of SshConnect c \<Rightarrow> True | ForwardOut a b c d f \<Rightarrow> True | ServerListen a b \<Rightarrow> True
      | _ \<Rightarrow> False)"

definition is_close_call :: "event \<Rightarrow> bool" where
  "is_close_call e = (case e of ServerClose a \<Rightarrow> True | SshEnd a \<Rightarrow> True | _ \<Rightarrow> False)"

text \<open>The token requests, in order.\<close>

definition token_requests :: "event list \<Rightarrow> AuthTokenParams list" where
  "token_requests evs =
     concat (map (\<lambda>e. case e of SignerGetAuthToken p \<Rightarrow> [p] | _ \<Rightarrow> []) evs)"

text \<open>The state after one round of the first loop of \<^verbatim>\<open>close\<close>: the body of
  \<open>close_connections\<close> for one id.\<close>

definition after_close :: "env \<Rightarrow> string \<Rightarrow> RdsHandler \<Rightarrow> RdsHandler" where
  "after_close env cid s =
     (case closeConnection env cid s of
        (Inr r, s1) \<Rightarrow> s1
      | (Inl err, s1) \<Rightarrow> emit (Console ErrorLevel (''Loi dong ket noi '' @ cid @ '':'') (Some err)) s1)"

text \<open>An assumption about the world, not a part of the handler: closing a listener and
  ending an SSH client never throw.\<close>

definition tunnel_closes_return :: "env \<Rightarrow> bool" where
  "tunnel_closes_return env \<longleftrightarrow>
     (\<forall>h x. effect env h (ServerClose x) = None \<and> effect env h (SshEnd x) = None)"





section \<open>Sample worlds and states\<close>

text \<open>A world in which every call succeeds: the clock counts the events so far, every
  new driver object is numbered by them, statements return no rows.\<close>

definition calm :: env where
  "calm =
     \<lparr>RDS_SSL = None,
      now = (\<lambda>h. length h),
      handle = (\<lambda>h e. Inr (length h)),
      bound = (\<lambda>h e. Inr (length h, 40000 + length h)),
      token = (\<lambda>h e. Inr ''iam-token''),
      rows = (\<lambda>h e. Inr []),
      effect = (\<lambda>h e. None)\<rparr>"

definition fresh :: RdsHandler where
  "fresh = \<lparr>region = ''us-east-1'', connections = [], tunnels = [], trace = []\<rparr>"

text \<open>A handler with one open tunnel and no connection.\<close>

definition one_tunnel :: RdsHandler where
  "one_tunnel =
     fresh\<lparr>tunnels :=
       [(''tunnel_7'', \<lparr>sshClient = 1, server = 2, localHost = ''127.0.0.1'', localPort = 40001,
                        dbHost = ''db'', dbPort = 3306, tunnelId = ''tunnel_7''\<rparr>)]\<rparr>"

text \<open>A handler with two live connections: a direct MySQL session, and a PostgreSQL
  session that runs through the tunnel \<^verbatim>\<open>tunnel_7\<close>.\<close>

definition two_open :: RdsHandler where
  "two_open =
     one_tunnel\<lparr>connections :=
       [(''mysql_db_app_5'', \<lparr>connection = 1, engine = mysql, tunnelId = None\<rparr>),
        (''postgres_ssh_db_app_9'', \<lparr>connection = 2, engine = postgres, tunnelId = Some ''tunnel_7''\<rparr>)]\<rparr>"

text \<open>Worlds in which ending one of the two sessions throws, and everything else
  succeeds.\<close>

definition stuck_mysql :: env where
  "stuck_mysql =
     calm\<lparr>effect := (\<lambda>h e. if e = MysqlEnd 1 then Some (DriverError ''socket hang up'') else None)\<rparr>"

definition stuck_pg :: env where
  "stuck_pg =
     calm\<lparr>effect := (\<lambda>h e. if e = PgEnd 2 then Some (DriverError ''socket hang up'') else None)\<rparr>"

text \<open>Three inserts for the MySQL session of \<open>two_open\<close>, and two worlds in which
  the second one is refused: in the first the rollback works, in the second the rollback
  throws as well.\<close>

definition three_inserts :: TransactionParams where
  "three_inserts =
     \<lparr>TransactionParams.connectionId = ''mysql_db_app_5'',
      queries = [\<lparr>sql = ''INSERT 1'', Statement.vals = None\<rparr>,
                 \<lparr>sql = ''INSERT 2'', Statement.vals = None\<rparr>,
                 \<lparr>sql = ''INSERT 3'', Statement.vals = None\<rparr>]\<rparr>"

definition refused :: env where
  "refused =
     calm\<lparr>rows := (\<lambda>h e. if e = MysqlQuery 1 ''INSERT 2'' [] then Inl (DriverError ''duplicate key'')
                        else Inr [])\<rparr>"

definition refused_then_lost :: env where
  "refused_then_lost =
     refused\<lparr>effect := (\<lambda>h e. if e = MysqlRollback 1 then Some (DriverError ''connection lost'')
                           else None)\<rparr>"

text \<open>Connect requests: a direct one with password authentication and \<^verbatim>\<open>ssl: false\<close>,
  the same through a bastion host, and the tunneled one with IAM authentication.\<close>

definition direct_request :: ConnectParams where
  "direct_request =
     \<lparr>ConnectParams.host = ''db.internal'', port = None, user = ''app'', password = ''secret'',
      database = ''shop'', useIAM = None, ssl = Some False, sshHost = None, sshPort = None,
      sshUsername = None, sshPassword = None, sshPrivateKey = None\<rparr>"

definition tunneled_request :: ConnectParams where
  "tunneled_request =
     direct_request\<lparr>ConnectParams.ssl := None, ConnectParams.sshHost := Some ''bastion'',
       ConnectParams.sshUsername := Some ''ec2-user'', ConnectParams.sshPassword := Some ''pw''\<rparr>"

definition iam_request :: ConnectParams where
  "iam_request = tunneled_request\<lparr>useIAM := Some True\<rparr>"

text \<open>A request whose \<^verbatim>\<open>sshHost\<close> is present and empty.\<close>

definition empty_host_request :: ConnectParams where
  "empty_host_request = direct_request\<lparr>ConnectParams.sshHost := Some []\<rparr>"

text \<open>A world in which the SSH side works and both database drivers refuse to
  connect.\<close>

definition unreachable_db :: env where
  "unreachable_db =
     calm\<lparr>handle := (\<lambda>h e. case e of
                            MysqlCreateConnection c \<Rightarrow> Inl (DriverError ''ECONNREFUSED'')
                          | PgConnect c \<Rightarrow> Inl (DriverError ''ECONNREFUSED'')
                          | _ \<Rightarrow> Inr (length h))\<rparr>"

text \<open>A calm world whose clock stands still: \<^verbatim>\<open>Date.now()\<close> gives the same
  millisecond every time it is read.\<close>

definition same_millisecond :: env where
  "same_millisecond = calm\<lparr>now := (\<lambda>h. 1700000000000)\<rparr>"

text \<open>A world whose clock stands still and whose MySQL driver accepts the first
  session and refuses every later one.\<close>

definition second_refused :: env where
  "second_refused =
     same_millisecond\<lparr>handle := (\<lambda>h e. case e of
                            MysqlCreateConnection c \<Rightarrow>
                              if session_configs h = [] then Inr (length h)
                              else Inl (DriverError ''ECONNREFUSED'')
                          | _ \<Rightarrow> Inr (length h))\<rparr>"


text \<open>A calm world whose environment sets \<^verbatim>\<open>RDS_SSL=true\<close>.\<close>

definition ssl_policy :: env where
  "ssl_policy = calm\<lparr>RDS_SSL := Some ''true''\<rparr>"

section \<open>Basic facts\<close>

lemma trace_emit: "trace (emit e s) = trace s @ [e]"
  by (simp add: emit_def)

lemma connections_emit: "connections (emit e s) = connections s"
  by (simp add: emit_def)

lemma tunnels_emit: "tunnels (emit e s) = tunnels s"
  by (simp add: emit_def)

lemma lookup_Own: "lookup obj k = Own v \<longleftrightarrow> map_of obj k = Some v"
  by (simp add: lookup_def split: option.splits)

lemma delete_absent: "map_of obj k = None \<Longrightarrow> AList.delete k obj = obj"
  by (induction obj) (auto split: if_splits)

lemma map_of_delete_same: "map_of (AList.delete k obj) k = None"
  by (simp add: delete_conv')

section \<open>Closing a tunnel\<close>

lemma closeTunnel_absent:
  "map_of (tunnels s) tid = None \<Longrightarrow>
   \<exists>lvl msg. closeTunnel env tid s = (None, emit (Console lvl msg None) s)"
  by (auto simp: closeTunnel_def lookup_def)

lemma closeTunnel_returns:
  "closeTunnel env tid s = (None, s') \<Longrightarrow>
   tunnels s' = AList.delete tid (tunnels s) \<and> connections s' = connections s"
  by (auto simp: closeTunnel_def lookup_def ask_def emit_def Let_def delete_absent
      split: option.splits if_splits)

lemma closeTunnel_throws:
  "closeTunnel env tid s = (Some e, s') \<Longrightarrow>
   tunnels s' = tunnels s \<and> connections s' = connections s"
  by (auto simp: closeTunnel_def lookup_def ask_def emit_def Let_def
      split: option.splits if_splits)

lemma closeTunnel_trace:
  "\<exists>evs. trace (snd (closeTunnel env tid s)) = trace s @ evs"
  by (auto simp: closeTunnel_def lookup_def ask_def emit_def Let_def
      split: option.splits if_splits)

text \<open>
  Claim C8. \<^verbatim>\<open>closeTunnel\<close> is idempotent. For every tunnel id: when the id is not a
  key of the tunnel registry, the call raises nothing, leaves both registries as they
  are and only prints one line; and a call that returns normally leaves the id out of
  the registry, so that a second call is again such a no-op.
\<close>

theorem closeTunnel_idempotent:
  assumes "closeTunnel env tid s = (r, s')"
  shows "(map_of (tunnels s) tid = None \<longrightarrow>
            r = None \<and> tunnels s' = tunnels s \<and> connections s' = connections s \<and>
            (\<exists>lvl msg. new_events s s' = [Console lvl msg None])) \<and>
         (r = None \<longrightarrow>
            map_of (tunnels s') tid = None \<and>
            (\<exists>lvl msg. closeTunnel env tid s' = (None, emit (Console lvl msg None) s')))"
proof -
  have first: "r = None \<and> tunnels s' = tunnels s \<and> connections s' = connections s \<and>
            (\<exists>lvl msg. new_events s s' = [Console lvl msg None])"
    if absent: "map_of (tunnels s) tid = None"
  proof -
    from closeTunnel_absent [OF absent, of env] assms
    obtain lvl msg where "r = None" "s' = emit (Console lvl msg None) s"
      by auto
    then show ?thesis
      by (simp add: emit_def new_events_def)
  qed
  have second: "map_of (tunnels s') tid = None \<and>
            (\<exists>lvl msg. closeTunnel env tid s' = (None, emit (Console lvl msg None) s'))"
    if "r = None"
  proof -
    from that assms have "tunnels s' = AList.delete tid (tunnels s)"
      using closeTunnel_returns by blast
    then have gone: "map_of (tunnels s') tid = None"
      by (simp add: map_of_delete_same)
    with closeTunnel_absent [OF gone] show ?thesis
      by blast
  qed
  from first second show ?thesis
    by blast
qed

text \<open>The open tunnel \<^verbatim>\<open>tunnel_7\<close> is closed twice in a calm world: the first call
  removes it, the second finds nothing and only prints.\<close>

theorem closeTunnel_idempotent_witness:
  "fst (closeTunnel calm ''tunnel_7'' one_tunnel) = None \<and>
   map_of (tunnels one_tunnel) ''tunnel_7'' \<noteq> None \<and>
   map_of (tunnels (snd (closeTunnel calm ''tunnel_7'' one_tunnel))) ''tunnel_7'' = None \<and>
   (\<exists>lvl msg.
      closeTunnel calm ''tunnel_7'' (snd (closeTunnel calm ''tunnel_7'' one_tunnel)) =
        (None, emit (Console lvl msg None) (snd (closeTunnel calm ''tunnel_7'' one_tunnel))))"
proof -
  have r: "fst (closeTunnel calm ''tunnel_7'' one_tunnel) = None"
    by (simp add: closeTunnel_def one_tunnel_def fresh_def calm_def lookup_def ask_def emit_def)
  have "closeTunnel calm ''tunnel_7'' one_tunnel =
          (fst (closeTunnel calm ''tunnel_7'' one_tunnel), snd (closeTunnel calm ''tunnel_7'' one_tunnel))"
    by simp
  from closeTunnel_idempotent [OF this] r show ?thesis
    by (simp add: one_tunnel_def fresh_def)
qed

section \<open>Closing a connection\<close>

lemma closeConnection_end_throws:
  assumes "map_of (connections s) cid = Some c"
    and "effect env (trace s) (end_call c) = Some e"
  shows "closeConnection env cid s =
           (Inl e, emit (Console ErrorLevel ''Error closing RDS connection:'' (Some e)) (emit (end_call c) s))"
  using assms by (simp add: closeConnection_def lookup_def catch_log_def ask_def)

lemma closeConnection_returns:
  assumes "closeConnection env cid s = (Inr res, s')"
  shows "connections s' = AList.delete cid (connections s) \<and>
         (\<exists>c. map_of (connections s) cid = Some c \<and> effect env (trace s) (end_call c) = None \<and>
              (case ConnectionInfo.tunnelId c of
                 None \<Rightarrow> tunnels s' = tunnels s
               | Some tid \<Rightarrow> if tid = [] then tunnels s' = tunnels s
                             else tunnels s' = AList.delete tid (tunnels s)))"
proof (cases "lookup (connections s) cid")
  case (Own c)
  then have c: "map_of (connections s) cid = Some c"
    by (simp add: lookup_Own)
  show ?thesis
  proof (cases "effect env (trace s) (end_call c)")
    case (Some e)
    with assms c show ?thesis
      by (simp add: closeConnection_end_throws)
  next
    case None
    show ?thesis
    proof (cases "ConnectionInfo.tunnelId c")
      case no: None
      with assms Own None c show ?thesis
        by (auto simp: closeConnection_def catch_log_def ask_def emit_def)
    next
      case (Some tid)
      show ?thesis
      proof (cases "tid \<noteq> [] \<and> lookup (tunnels (emit (end_call c) s)) tid \<noteq> Undefined")
        case False
        then have "tid \<noteq> [] \<Longrightarrow> AList.delete tid (tunnels s) = tunnels s"
          by (auto simp: lookup_def tunnels_emit delete_absent split: option.splits if_splits)
        with assms Own None c Some False show ?thesis
          by (auto simp: closeConnection_def catch_log_def ask_def connections_emit tunnels_emit)
      next
        case True
        obtain r2 s2 where ct: "closeTunnel env tid (emit (end_call c) s) = (r2, s2)"
          by (cases "closeTunnel env tid (emit (end_call c) s)")
        with assms Own None c Some True have "r2 = None"
          by (auto simp: closeConnection_def catch_log_def ask_def split: option.splits)
        with ct closeTunnel_returns
        have "tunnels s2 = AList.delete tid (tunnels s) \<and> connections s2 = connections s"
          by (fastforce simp: tunnels_emit connections_emit)
        with assms Own None c Some True ct \<open>r2 = None\<close> show ?thesis
          by (auto simp: closeConnection_def catch_log_def ask_def)
      qed
    qed
  qed
next
  case Inherited
  with assms show ?thesis
    by (simp add: closeConnection_def catch_log_def)
next
  case Undefined
  with assms show ?thesis
    by (simp add: closeConnection_def catch_log_def)
qed

lemma closeConnection_throws:
  assumes "closeConnection env cid s = (Inl e, s')"
  shows "connections s' = connections s \<and> tunnels s' = tunnels s \<and>
         Console ErrorLevel ''Error closing RDS connection:'' (Some e) \<in> set (trace s')"
proof (cases "lookup (connections s) cid")
  case (Own c)
  show ?thesis
  proof (cases "effect env (trace s) (end_call c)")
    case (Some e')
    with assms Own show ?thesis
      by (auto simp: closeConnection_def catch_log_def ask_def emit_def)
  next
    case None
    show ?thesis
    proof (cases "closeTunnel env (the (ConnectionInfo.tunnelId c)) (emit (end_call c) s)")
      case (Pair r2 s2)
      with assms Own None closeTunnel_throws [of env "the (ConnectionInfo.tunnelId c)" "emit (end_call c) s" e s2]
      show ?thesis
        by (auto simp: closeConnection_def catch_log_def ask_def emit_def split: option.splits if_splits)
    qed
  qed
next
  case Inherited
  with assms show ?thesis
    by (auto simp: closeConnection_def catch_log_def emit_def)
next
  case Undefined
  with assms show ?thesis
    by (auto simp: closeConnection_def catch_log_def emit_def)
qed

lemma closeConnection_trace:
  "\<exists>evs. trace (snd (closeConnection env cid s)) = trace s @ evs"
proof -
  have ct: "\<And>t s0. \<exists>evs. trace (snd (closeTunnel env t s0)) = trace s0 @ evs"
    by (rule closeTunnel_trace)
  show ?thesis
    apply (cases "lookup (connections s) cid")
      apply (auto simp: closeConnection_def catch_log_def ask_def emit_def split: option.splits prod.splits)
    subgoal for c t s2 using ct [of t "emit (end_call c) s"] by (auto simp: emit_def)
    subgoal for c t e s2 using ct [of t "emit (end_call c) s"] by (auto simp: emit_def)
    done
qed

section \<open>The shutdown sweep\<close>

lemma closeTunnel_never_throws:
  "tunnel_closes_return env \<Longrightarrow> fst (closeTunnel env tid s) = None"
  by (auto simp: tunnel_closes_return_def closeTunnel_def ask_def Let_def split: property.splits)

lemma close_tunnels_empty:
  assumes "tunnel_closes_return env"
  shows "fst ` set (tunnels s) \<subseteq> set tids \<Longrightarrow> tunnels (close_tunnels env tids s) = []"
proof (induction tids arbitrary: s)
  case Nil
  then show ?case by simp
next
  case (Cons tid tids)
  obtain s1 where s1: "closeTunnel env tid s = (None, s1)"
    using closeTunnel_never_throws [OF assms, of tid s] by (cases "closeTunnel env tid s") simp
  then have "tunnels s1 = AList.delete tid (tunnels s)"
    using closeTunnel_returns by blast
  with Cons.prems have "fst ` set (tunnels s1) \<subseteq> set tids"
    by (auto simp: AList.delete_eq)
  with Cons.IH s1 show ?case
    by simp
qed

lemma close_tunnels_connections:
  "connections (close_tunnels env tids s) = connections s"
proof (induction tids arbitrary: s)
  case Nil
  then show ?case by simp
next
  case (Cons tid tids)
  show ?case
  proof (cases "closeTunnel env tid s")
    case (Pair r s1)
    then have "connections s1 = connections s"
      using closeTunnel_returns closeTunnel_throws by (cases r) blast+
    with Pair Cons.IH show ?thesis
      by (cases r) (simp_all add: connections_emit)
  qed
qed

lemma close_tunnels_trace:
  "\<exists>evs. trace (close_tunnels env tids s) = trace s @ evs"
proof (induction tids arbitrary: s)
  case Nil
  then show ?case by simp
next
  case (Cons tid tids)
  obtain r s1 where s1: "closeTunnel env tid s = (r, s1)"
    by (cases "closeTunnel env tid s")
  with closeTunnel_trace [of env tid s] obtain evs where evs: "trace s1 = trace s @ evs"
    by auto
  show ?case
  proof (cases r)
    case None
    with s1 evs Cons.IH [of s1] show ?thesis by auto
  next
    case (Some e)
    with s1 evs Cons.IH [of "emit (Console ErrorLevel (''Loi dong tunnel '' @ tid @ '':'') (Some e)) s1"]
    show ?thesis by (auto simp: trace_emit)
  qed
qed

lemma close_connections_step:
  "close_connections env (cid # cids) s = close_connections env cids (after_close env cid s)"
  by (simp add: after_close_def split: prod.splits sum.splits)

lemma after_close_connections:
  "connections (after_close env cid s) = connections s \<or>
   connections (after_close env cid s) = AList.delete cid (connections s)"
proof (cases "closeConnection env cid s")
  case (Pair r s1)
  then show ?thesis
    using closeConnection_returns [of env cid s _ s1] closeConnection_throws [of env cid s _ s1]
    by (cases r) (auto simp: after_close_def connections_emit)
qed

lemma after_close_other:
  "k \<noteq> cid \<Longrightarrow> map_of (connections (after_close env cid s)) k = map_of (connections s) k"
  using after_close_connections [of env cid s] by auto

lemma after_close_subset:
  "set (connections (after_close env cid s)) \<subseteq> set (connections s)"
  using after_close_connections [of env cid s] by (auto simp: AList.delete_eq)

lemma after_close_trace:
  "\<exists>evs. trace (after_close env cid s) = trace s @ evs"
  using closeConnection_trace [of env cid s]
  by (cases "closeConnection env cid s") (auto simp: after_close_def trace_emit split: sum.splits)

lemma close_connections_subset:
  "set (connections (close_connections env cids s)) \<subseteq> set (connections s)"
proof (induction cids arbitrary: s)
  case Nil
  then show ?case by simp
next
  case (Cons cid cids)
  from Cons.IH [of "after_close env cid s"] after_close_subset [of env cid s]
  show ?case
    unfolding close_connections_step by blast
qed

lemma close_connections_trace:
  "\<exists>evs. trace (close_connections env cids s) = trace s @ evs"
proof (induction cids arbitrary: s)
  case Nil
  then show ?case by simp
next
  case (Cons cid cids)
  from Cons.IH [of "after_close env cid s"] after_close_trace [of env cid s]
  show ?case
    unfolding close_connections_step by auto
qed

lemma closeConnection_first_event:
  assumes "map_of (connections s) cid = Some c"
  shows "\<exists>rest. trace (snd (closeConnection env cid s)) = trace s @ end_call c # rest"
proof -
  have own: "lookup (connections s) cid = Own c"
    using assms by (simp add: lookup_Own)
  have ct: "\<And>t. \<exists>evs. trace (snd (closeTunnel env t (emit (end_call c) s))) = trace s @ end_call c # evs"
    using closeTunnel_trace [of env _ "emit (end_call c) s"] by (simp add: trace_emit)
  show ?thesis
  proof (cases "effect env (trace s) (end_call c)")
    case (Some e)
    with assms show ?thesis
      by (simp add: closeConnection_end_throws trace_emit)
  next
    case None
    show ?thesis
    proof (cases "ConnectionInfo.tunnelId c")
      case no: None
      with own None show ?thesis
        by (simp add: closeConnection_def catch_log_def ask_def trace_emit)
    next
      case (Some tid)
      from ct [of tid] obtain evs where
        "trace (snd (closeTunnel env tid (emit (end_call c) s))) = trace s @ end_call c # evs" ..
      with own None Some show ?thesis
        by (cases "closeTunnel env tid (emit (end_call c) s)")
          (auto simp: closeConnection_def catch_log_def ask_def trace_emit split: option.splits)
    qed
  qed
qed

lemma after_close_first_event:
  assumes "map_of (connections s) cid = Some c"
  shows "\<exists>rest. trace (after_close env cid s) = trace s @ end_call c # rest"
  using closeConnection_first_event [OF assms, of env]
  by (cases "closeConnection env cid s") (auto simp: after_close_def trace_emit split: sum.splits)

lemma after_close_logged:
  assumes "cid \<in> fst ` set (connections (after_close env cid s))"
  shows "\<exists>err evs. trace (after_close env cid s) = trace s @ evs \<and>
           Console ErrorLevel (''Loi dong ket noi '' @ cid @ '':'') (Some err) \<in> set evs"
proof (cases "closeConnection env cid s")
  case (Pair r s1)
  show ?thesis
  proof (cases r)
    case (Inr res)
    with Pair have "connections (after_close env cid s) = AList.delete cid (connections s)"
      using closeConnection_returns [of env cid s res s1] by (simp add: after_close_def)
    with assms show ?thesis
      using delete_notin_dom [of cid "connections s"] by simp
  next
    case (Inl err)
    from closeConnection_trace [of env cid s] Pair obtain evs where "trace s1 = trace s @ evs"
      by auto
    with Pair Inl show ?thesis
      by (auto simp: after_close_def trace_emit)
  qed
qed

lemma closeConnection_succeeds:
  assumes "map_of (connections s) cid = Some c"
    and "effect env (trace s) (end_call c) = None"
    and "tunnel_closes_return env"
  shows "\<exists>res. fst (closeConnection env cid s) = Inr res"
proof -
  have own: "lookup (connections s) cid = Own c"
    using assms(1) by (simp add: lookup_Own)
  define step where "step =
     (case ConnectionInfo.tunnelId c of
        None \<Rightarrow> (None, emit (end_call c) s)
      | Some tid \<Rightarrow>
          if tid \<noteq> [] \<and> lookup (tunnels (emit (end_call c) s)) tid \<noteq> Undefined
          then closeTunnel env tid (emit (end_call c) s) else (None, emit (end_call c) s))"
  have "fst step = None"
    unfolding step_def
    by (simp add: closeTunnel_never_throws [OF assms(3)] split: option.splits)
  then obtain s2 where "step = (None, s2)"
    by (cases step) simp
  with own assms(2) show ?thesis
    by (simp add: closeConnection_def catch_log_def ask_def step_def [symmetric])
qed

lemma after_close_removed:
  assumes "map_of (connections s) cid = Some c"
    and "effect env (trace s) (end_call c) = None"
    and "tunnel_closes_return env"
  shows "cid \<notin> fst ` set (connections (after_close env cid s))"
proof -
  from closeConnection_succeeds [OF assms] obtain res s1 where
    run: "closeConnection env cid s = (Inr res, s1)"
    by (cases "closeConnection env cid s") auto
  then have "connections (after_close env cid s) = AList.delete cid (connections s)"
    using closeConnection_returns [OF run] by (simp add: after_close_def)
  then show ?thesis
    using delete_notin_dom [of cid "connections s"] by simp
qed

lemma close_connections_attempted:
  "cid \<in> set cids \<Longrightarrow> map_of (connections s) cid = Some c \<Longrightarrow>
   \<exists>evs. trace (close_connections env cids s) = trace s @ evs \<and> end_call c \<in> set evs"
proof (induction cids arbitrary: s)
  case Nil
  then show ?case by simp
next
  case (Cons k ks)
  show ?case
  proof (cases "cid = k")
    case True
    from after_close_first_event [OF Cons.prems(2), of env] obtain rest where
      "trace (after_close env cid s) = trace s @ end_call c # rest" ..
    moreover from close_connections_trace [of env ks "after_close env cid s"] obtain evs where
      "trace (close_connections env ks (after_close env cid s)) = trace (after_close env cid s) @ evs" ..
    ultimately show ?thesis
      using True unfolding close_connections_step by simp
  next
    case False
    with Cons.prems have "cid \<in> set ks" "map_of (connections (after_close env k s)) cid = Some c"
      by (simp_all add: after_close_other)
    from Cons.IH [OF this] obtain evs where
      "trace (close_connections env ks (after_close env k s)) = trace (after_close env k s) @ evs"
      "end_call c \<in> set evs"
      by blast
    moreover from after_close_trace [of env k s] obtain evs0 where
      "trace (after_close env k s) = trace s @ evs0" ..
    ultimately show ?thesis
      unfolding close_connections_step by simp
  qed
qed

lemma close_connections_logged:
  "cid \<in> set cids \<Longrightarrow> cid \<in> fst ` set (connections (close_connections env cids s)) \<Longrightarrow>
   \<exists>err evs. trace (close_connections env cids s) = trace s @ evs \<and>
     Console ErrorLevel (''Loi dong ket noi '' @ cid @ '':'') (Some err) \<in> set evs"
proof (induction cids arbitrary: s)
  case Nil
  then show ?case by simp
next
  case (Cons k ks)
  show ?case
  proof (cases "cid = k")
    case True
    from Cons.prems(2) close_connections_subset [of env ks "after_close env k s"]
    have "cid \<in> fst ` set (connections (after_close env cid s))"
      unfolding close_connections_step True by auto
    from after_close_logged [OF this] obtain err evs0 where
      "trace (after_close env cid s) = trace s @ evs0"
      "Console ErrorLevel (''Loi dong ket noi '' @ cid @ '':'') (Some err) \<in> set evs0"
      by blast
    moreover from close_connections_trace [of env ks "after_close env cid s"] obtain evs where
      "trace (close_connections env ks (after_close env cid s)) = trace (after_close env cid s) @ evs" ..
    ultimately show ?thesis
      using True unfolding close_connections_step by auto
  next
    case False
    from Cons.prems(2) have
      "cid \<in> fst ` set (connections (close_connections env ks (after_close env k s)))"
      by (simp only: close_connections_step)
    with False Cons.prems(1) have "cid \<in> set ks"
      "cid \<in> fst ` set (connections (close_connections env ks (after_close env k s)))"
      by simp_all
    from Cons.IH [OF this] obtain err evs where
      "trace (close_connections env ks (after_close env k s)) = trace (after_close env k s) @ evs"
      "Console ErrorLevel (''Loi dong ket noi '' @ cid @ '':'') (Some err) \<in> set evs"
      by blast
    moreover from after_close_trace [of env k s] obtain evs0 where
      "trace (after_close env k s) = trace s @ evs0" ..
    ultimately show ?thesis
      unfolding close_connections_step by auto
  qed
qed

lemma close_connections_removed:
  assumes "tunnel_closes_return env" and "\<forall>h. effect env h (end_call c) = None"
  shows "cid \<in> set cids \<Longrightarrow> map_of (connections s) cid = Some c \<Longrightarrow>
         cid \<notin> fst ` set (connections (close_connections env cids s))"
proof (induction cids arbitrary: s)
  case Nil
  then show ?case by simp
next
  case (Cons k ks)
  show ?case
  proof (cases "cid = k")
    case True
    from after_close_removed [OF Cons.prems(2) _ assms(1)] assms(2)
    have "cid \<notin> fst ` set (connections (after_close env cid s))"
      by simp
    with close_connections_subset [of env ks "after_close env cid s"] show ?thesis
      unfolding close_connections_step True by auto
  next
    case False
    with Cons.prems have "cid \<in> set ks" "map_of (connections (after_close env k s)) cid = Some c"
      by (simp_all add: after_close_other)
    from Cons.IH [OF this] show ?thesis
      unfolding close_connections_step .
  qed
qed

lemma after_close_kept:
  assumes "map_of (connections s) cid = Some c" and "\<forall>h. effect env h (end_call c) \<noteq> None"
  shows "map_of (connections (after_close env k s)) cid = Some c"
proof (cases "k = cid")
  case False
  with assms(1) show ?thesis
    by (simp add: after_close_other)
next
  case True
  from assms(2) obtain e where "effect env (trace s) (end_call c) = Some e"
    by auto
  from closeConnection_end_throws [OF assms(1) this] assms(1) show ?thesis
    by (simp add: after_close_def True connections_emit)
qed

lemma close_connections_kept:
  assumes "\<forall>h. effect env h (end_call c) \<noteq> None"
  shows "map_of (connections s) cid = Some c \<Longrightarrow>
         map_of (connections (close_connections env cids s)) cid = Some c"
proof (induction cids arbitrary: s)
  case Nil
  then show ?case by simp
next
  case (Cons k ks)
  from Cons.IH [OF after_close_kept [OF Cons.prems assms]] show ?case
    unfolding close_connections_step .
qed

text \<open>
  Claim C1 as stated fails: with two live connections, one of them tunneled, and a
  MySQL driver whose \<^verbatim>\<open>end()\<close> throws, the sweep leaves that connection in the
  connection registry.
\<close>

theorem close_sweep_counterexample:
  "effect stuck_mysql [] (MysqlEnd 1) = Some (DriverError ''socket hang up'') \<and>
   map fst (connections two_open) = [''mysql_db_app_5'', ''postgres_ssh_db_app_9''] \<and>
   map fst (connections (snd (close stuck_mysql two_open))) = [''mysql_db_app_5'']"
  by (simp add: closeConnection_def closeTunnel_def close_def lookup_def catch_log_def ask_def emit_def
      end_call_def two_open_def one_tunnel_def fresh_def calm_def stuck_mysql_def Let_def)

text \<open>
  Claim C1, as amended. \<^verbatim>\<open>close()\<close> always returns success. Whatever the drivers and
  the tunnels do, the driver close of every registered connection has been attempted, so
  a failure closing one does not prevent closing the rest; every connection whose driver
  close throws is still in the connection registry; what is left in the connection
  registry was already there, and for each id left a failure was printed. Provided no
  tunnel close throws, the tunnel registry is empty afterwards and every connection whose
  driver close cannot throw has left the connection registry.
\<close>

theorem close_sweep:
  assumes "close env s = (r, s')"
  shows "r = Inr \<lparr>success = True, message = ''Da dong tat ca ket noi va tunnel''\<rparr> \<and>
         set (connections s') \<subseteq> set (connections s) \<and>
         (\<forall>cid c. map_of (connections s) cid = Some c \<longrightarrow>
            end_call c \<in> set (new_events s s') \<and>
            ((\<forall>h. effect env h (end_call c) \<noteq> None) \<longrightarrow> map_of (connections s') cid = Some c)) \<and>
         (\<forall>cid \<in> fst ` set (connections s').
            \<exists>err. Console ErrorLevel (''Loi dong ket noi '' @ cid @ '':'') (Some err) \<in> set (new_events s s')) \<and>
         (tunnel_closes_return env \<longrightarrow>
            tunnels s' = [] \<and>
            (\<forall>cid c. map_of (connections s) cid = Some c \<and> (\<forall>h. effect env h (end_call c) = None) \<longrightarrow>
               cid \<notin> fst ` set (connections s')))"
proof -
  define s1 where "s1 = close_connections env (map fst (connections s)) s"
  define s2 where "s2 = close_tunnels env (map fst (tunnels s1)) s1"
  from assms have r: "r = Inr \<lparr>success = True, message = ''Da dong tat ca ket noi va tunnel''\<rparr>"
    and s': "s' = s2"
    by (simp_all add: close_def catch_log_def Let_def s1_def s2_def)
  have tun: "tunnels s2 = []" if "tunnel_closes_return env"
    unfolding s2_def by (rule close_tunnels_empty [OF that]) simp
  have conn: "connections s2 = connections s1"
    unfolding s2_def by (rule close_tunnels_connections)
  obtain evs2 where evs2: "trace s2 = trace s1 @ evs2"
    unfolding s2_def using close_tunnels_trace by blast
  obtain evs1 where evs1: "trace s1 = trace s @ evs1"
    unfolding s1_def using close_connections_trace by blast
  have new: "new_events s s2 = evs1 @ evs2"
    by (simp add: new_events_def evs1 evs2)
  have sub: "set (connections s2) \<subseteq> set (connections s)"
    unfolding conn s1_def by (rule close_connections_subset)
  have attempted: "end_call c \<in> set (new_events s s2)"
    if "map_of (connections s) cid = Some c" for cid c
  proof -
    from that have "cid \<in> set (map fst (connections s))"
      by (metis map_of_eq_None_iff option.distinct(1) set_map)
    from close_connections_attempted [OF this that, of env] evs1
    show ?thesis
      by (auto simp: new s1_def)
  qed
  have removed: "cid \<notin> fst ` set (connections s2)"
    if "tunnel_closes_return env" "map_of (connections s) cid = Some c"
      "\<forall>h. effect env h (end_call c) = None" for cid c
  proof -
    from that(2) have "cid \<in> set (map fst (connections s))"
      by (metis map_of_eq_None_iff option.distinct(1) set_map)
    from close_connections_removed [OF that(1) that(3) this that(2)]
    show ?thesis
      by (simp add: conn s1_def)
  qed
  have logged: "\<exists>err. Console ErrorLevel (''Loi dong ket noi '' @ cid @ '':'') (Some err) \<in> set (new_events s s2)"
    if "cid \<in> fst ` set (connections s2)" for cid
  proof -
    from that sub have "cid \<in> set (map fst (connections s))"
      by auto
    moreover from that have "cid \<in> fst ` set (connections (close_connections env (map fst (connections s)) s))"
      by (simp add: conn s1_def)
    ultimately obtain err evs where
      "trace s1 = trace s @ evs" "Console ErrorLevel (''Loi dong ket noi '' @ cid @ '':'') (Some err) \<in> set evs"
      using close_connections_logged unfolding s1_def by blast
    with evs1 show ?thesis
      by (auto simp: new)
  qed
  have kept: "map_of (connections s2) cid = Some c"
    if "map_of (connections s) cid = Some c" "\<forall>h. effect env h (end_call c) \<noteq> None" for cid c
    using close_connections_kept [OF that(2) that(1)] by (simp add: conn s1_def)
  from r tun sub attempted removed kept logged show ?thesis
    unfolding s' by blast
qed

text \<open>The sweep over the two connections of \<open>two_open\<close> in the world where the
  MySQL driver's \<^verbatim>\<open>end()\<close> throws: the call reports success, both driver closes are
  attempted, the tunneled PostgreSQL connection and its tunnel are gone, the MySQL
  connection is still registered and its failure is printed.\<close>

theorem close_sweep_witness:
  "fst (close stuck_mysql two_open) = Inr \<lparr>success = True, message = ''Da dong tat ca ket noi va tunnel''\<rparr> \<and>
   tunnel_closes_return stuck_mysql \<and>
   tunnels (snd (close stuck_mysql two_open)) = [] \<and>
   MysqlEnd 1 \<in> set (new_events two_open (snd (close stuck_mysql two_open))) \<and>
   PgEnd 2 \<in> set (new_events two_open (snd (close stuck_mysql two_open))) \<and>
   ''postgres_ssh_db_app_9'' \<notin> fst ` set (connections (snd (close stuck_mysql two_open))) \<and>
   map_of (connections (snd (close stuck_mysql two_open))) ''mysql_db_app_5'' \<noteq> None \<and>
   (\<exists>err. Console ErrorLevel ''Loi dong ket noi mysql_db_app_5:'' (Some err)
           \<in> set (new_events two_open (snd (close stuck_mysql two_open))))"
proof -
  have calm: "tunnel_closes_return stuck_mysql"
    by (simp add: tunnel_closes_return_def stuck_mysql_def calm_def)
  have run: "close stuck_mysql two_open = (fst (close stuck_mysql two_open), snd (close stuck_mysql two_open))"
    by simp
  note sweep = close_sweep [OF run]
  have my: "map_of (connections two_open) ''mysql_db_app_5'' =
              Some \<lparr>connection = 1, engine = mysql, tunnelId = None\<rparr>"
    and pg: "map_of (connections two_open) ''postgres_ssh_db_app_9'' =
              Some \<lparr>connection = 2, engine = postgres, tunnelId = Some ''tunnel_7''\<rparr>"
    by (simp_all add: two_open_def)
  have quiet: "\<forall>h. effect stuck_mysql h (PgEnd 2) = None"
    by (simp add: stuck_mysql_def calm_def)
  from sweep have ok: "fst (close stuck_mysql two_open) =
      Inr \<lparr>success = True, message = ''Da dong tat ca ket noi va tunnel''\<rparr>"
    by (rule conjunct1)
  from sweep have each: "\<forall>cid c. map_of (connections two_open) cid = Some c \<longrightarrow>
            end_call c \<in> set (new_events two_open (snd (close stuck_mysql two_open))) \<and>
            ((\<forall>h. effect stuck_mysql h (end_call c) \<noteq> None) \<longrightarrow>
               map_of (connections (snd (close stuck_mysql two_open))) cid = Some c)"
    by (rule conjunct1 [OF conjunct2 [OF conjunct2]])
  from sweep have printed: "\<forall>cid \<in> fst ` set (connections (snd (close stuck_mysql two_open))).
            \<exists>err. Console ErrorLevel (''Loi dong ket noi '' @ cid @ '':'') (Some err)
                   \<in> set (new_events two_open (snd (close stuck_mysql two_open)))"
    by (rule conjunct1 [OF conjunct2 [OF conjunct2 [OF conjunct2]]])
  from sweep have "tunnel_closes_return stuck_mysql \<longrightarrow>
      tunnels (snd (close stuck_mysql two_open)) = [] \<and>
      (\<forall>cid c. map_of (connections two_open) cid = Some c \<and> (\<forall>h. effect stuck_mysql h (end_call c) = None) \<longrightarrow>
         cid \<notin> fst ` set (connections (snd (close stuck_mysql two_open))))"
    by (rule conjunct2 [OF conjunct2 [OF conjunct2 [OF conjunct2]]])
  with calm have empty: "tunnels (snd (close stuck_mysql two_open)) = []"
    and gone: "\<forall>cid c. map_of (connections two_open) cid = Some c \<and> (\<forall>h. effect stuck_mysql h (end_call c) = None) \<longrightarrow>
         cid \<notin> fst ` set (connections (snd (close stuck_mysql two_open)))"
    by blast+
  have always: "\<forall>h. effect stuck_mysql h (MysqlEnd 1) \<noteq> None"
    by (simp add: stuck_mysql_def calm_def)
  from each [rule_format, OF my] always
  have kept: "map_of (connections (snd (close stuck_mysql two_open))) ''mysql_db_app_5'' =
                Some \<lparr>connection = 1, engine = mysql, tunnelId = None\<rparr>"
    by (simp add: end_call_def)
  then have left: "''mysql_db_app_5'' \<in> fst ` set (connections (snd (close stuck_mysql two_open)))"
    by (metis map_of_eq_None_iff option.distinct(1))
  from each [rule_format, OF my] have a: "MysqlEnd 1 \<in> set (new_events two_open (snd (close stuck_mysql two_open)))"
    by (simp add: end_call_def)
  from each [rule_format, OF pg] have b: "PgEnd 2 \<in> set (new_events two_open (snd (close stuck_mysql two_open)))"
    by (simp add: end_call_def)
  from gone [rule_format, of "''postgres_ssh_db_app_9''" "\<lparr>connection = 2, engine = postgres, tunnelId = Some ''tunnel_7''\<rparr>"]
    pg quiet
  have c: "''postgres_ssh_db_app_9'' \<notin> fst ` set (connections (snd (close stuck_mysql two_open)))"
    by (simp add: end_call_def)
  from printed [rule_format, OF left] have d:
    "\<exists>err. Console ErrorLevel ''Loi dong ket noi mysql_db_app_5:'' (Some err)
           \<in> set (new_events two_open (snd (close stuck_mysql two_open)))"
    by simp
  from ok calm empty a b c d kept show ?thesis
    by simp
qed

section \<open>Removal from the registries on close\<close>

text \<open>
  Claim C3 as stated fails: when \<^verbatim>\<open>end()\<close> of the tunneled PostgreSQL session
  throws, the error is re-raised with the connection and its tunnel still registered.
\<close>

theorem closeConnection_removal_counterexample:
  "effect stuck_pg [] (PgEnd 2) = Some (DriverError ''socket hang up'') \<and>
   fst (closeConnection stuck_pg ''postgres_ssh_db_app_9'' two_open) = Inl (DriverError ''socket hang up'') \<and>
   map_of (connections (snd (closeConnection stuck_pg ''postgres_ssh_db_app_9'' two_open))) ''postgres_ssh_db_app_9''
     = Some \<lparr>connection = 2, engine = postgres, tunnelId = Some ''tunnel_7''\<rparr> \<and>
   map_of (tunnels (snd (closeConnection stuck_pg ''postgres_ssh_db_app_9'' two_open))) ''tunnel_7'' \<noteq> None"
  by (simp add: closeConnection_def lookup_def catch_log_def ask_def emit_def
      end_call_def two_open_def one_tunnel_def fresh_def calm_def stuck_pg_def)

text \<open>
  Claim C3, as amended. For a registered connection id: when the driver's close throws,
  \<^verbatim>\<open>closeConnection\<close> prints that error with \<^verbatim>\<open>console.error\<close>, re-raises it, does
  nothing else and leaves both registries as they were; when the call returns normally
  the connection's entry is gone, and with it the entry of its tunnel if it had one; and
  the call does return normally when the driver's close returns and no tunnel close
  throws.
\<close>

theorem closeConnection_removal:
  assumes "map_of (connections s) cid = Some c" and "closeConnection env cid s = (r, s')"
  shows "(\<forall>e. effect env (trace s) (end_call c) = Some e \<longrightarrow>
            r = Inl e \<and>
            new_events s s' = [end_call c, Console ErrorLevel ''Error closing RDS connection:'' (Some e)] \<and>
            connections s' = connections s \<and> tunnels s' = tunnels s) \<and>
         (\<forall>res. r = Inr res \<longrightarrow>
            map_of (connections s') cid = None \<and>
            (\<forall>tid. ConnectionInfo.tunnelId c = Some tid \<and> tid \<noteq> [] \<longrightarrow> map_of (tunnels s') tid = None)) \<and>
         (effect env (trace s) (end_call c) = None \<and> tunnel_closes_return env \<longrightarrow> (\<exists>res. r = Inr res))"
proof -
  have throws: "r = Inl e \<and>
            new_events s s' = [end_call c, Console ErrorLevel ''Error closing RDS connection:'' (Some e)] \<and>
            connections s' = connections s \<and> tunnels s' = tunnels s"
    if "effect env (trace s) (end_call c) = Some e" for e
    using closeConnection_end_throws [OF assms(1) that] assms(2)
    by (auto simp: connections_emit tunnels_emit trace_emit new_events_def)
  have returns: "map_of (connections s') cid = None \<and>
            (\<forall>tid. ConnectionInfo.tunnelId c = Some tid \<and> tid \<noteq> [] \<longrightarrow> map_of (tunnels s') tid = None)"
    if "r = Inr res" for res
  proof -
    from closeConnection_returns [of env cid s res s'] assms that
    have "connections s' = AList.delete cid (connections s)"
      and "case ConnectionInfo.tunnelId c of
                 None \<Rightarrow> tunnels s' = tunnels s
               | Some tid \<Rightarrow> if tid = [] then tunnels s' = tunnels s
                             else tunnels s' = AList.delete tid (tunnels s)"
      by auto
    then show ?thesis
      by (auto simp: map_of_delete_same)
  qed
  have succeeds: "\<exists>res. r = Inr res"
    if "effect env (trace s) (end_call c) = None" "tunnel_closes_return env"
    using closeConnection_succeeds [OF assms(1) that] assms(2) by simp
  from throws returns succeeds show ?thesis
    by blast
qed

text \<open>In a calm world the tunneled connection of \<open>two_open\<close> is closed: its entry
  and the entry of \<^verbatim>\<open>tunnel_7\<close> are gone. In the world where the MySQL driver's
  \<^verbatim>\<open>end()\<close> throws, closing the MySQL connection prints and re-raises the driver's
  error and changes neither registry.\<close>

theorem closeConnection_removal_witness:
  "map_of (connections two_open) ''postgres_ssh_db_app_9'' \<noteq> None \<and>
   map_of (tunnels two_open) ''tunnel_7'' \<noteq> None \<and>
   (\<exists>res. fst (closeConnection calm ''postgres_ssh_db_app_9'' two_open) = Inr res) \<and>
   map_of (connections (snd (closeConnection calm ''postgres_ssh_db_app_9'' two_open))) ''postgres_ssh_db_app_9'' = None \<and>
   map_of (tunnels (snd (closeConnection calm ''postgres_ssh_db_app_9'' two_open))) ''tunnel_7'' = None \<and>
   fst (closeConnection stuck_mysql ''mysql_db_app_5'' two_open) = Inl (DriverError ''socket hang up'') \<and>
   new_events two_open (snd (closeConnection stuck_mysql ''mysql_db_app_5'' two_open)) =
     [MysqlEnd 1, Console ErrorLevel ''Error closing RDS connection:'' (Some (DriverError ''socket hang up''))] \<and>
   connections (snd (closeConnection stuck_mysql ''mysql_db_app_5'' two_open)) = connections two_open \<and>
   tunnels (snd (closeConnection stuck_mysql ''mysql_db_app_5'' two_open)) = tunnels two_open"
proof -
  let ?c = "\<lparr>connection = 2, engine = postgres, tunnelId = Some ''tunnel_7''\<rparr>"
  let ?m = "\<lparr>connection = 1, engine = mysql, tunnelId = None\<rparr>"
  have pg: "map_of (connections two_open) ''postgres_ssh_db_app_9'' = Some ?c"
    and my: "map_of (connections two_open) ''mysql_db_app_5'' = Some ?m"
    by (simp_all add: two_open_def)
  have tun: "map_of (tunnels two_open) ''tunnel_7'' \<noteq> None"
    by (simp add: two_open_def one_tunnel_def)
  have run: "closeConnection calm ''postgres_ssh_db_app_9'' two_open =
      (fst (closeConnection calm ''postgres_ssh_db_app_9'' two_open),
       snd (closeConnection calm ''postgres_ssh_db_app_9'' two_open))"
    by simp
  have stuck: "closeConnection stuck_mysql ''mysql_db_app_5'' two_open =
      (fst (closeConnection stuck_mysql ''mysql_db_app_5'' two_open),
       snd (closeConnection stuck_mysql ''mysql_db_app_5'' two_open))"
    by simp
  have quiet: "effect calm (trace two_open) (end_call ?c) = None" "tunnel_closes_return calm"
    by (simp_all add: calm_def tunnel_closes_return_def)
  have hangs: "effect stuck_mysql (trace two_open) (end_call ?m) = Some (DriverError ''socket hang up'')"
    by (simp add: stuck_mysql_def calm_def end_call_def)
  note removal = closeConnection_removal [OF pg run]
  note refusal = closeConnection_removal [OF my stuck]
  from removal quiet obtain res where res: "fst (closeConnection calm ''postgres_ssh_db_app_9'' two_open) = Inr res"
    by blast
  with removal have "map_of (connections (snd (closeConnection calm ''postgres_ssh_db_app_9'' two_open))) ''postgres_ssh_db_app_9'' = None"
    and "map_of (tunnels (snd (closeConnection calm ''postgres_ssh_db_app_9'' two_open))) ''tunnel_7'' = None"
    by simp_all
  moreover from refusal hangs have "fst (closeConnection stuck_mysql ''mysql_db_app_5'' two_open) = Inl (DriverError ''socket hang up'')"
    and "new_events two_open (snd (closeConnection stuck_mysql ''mysql_db_app_5'' two_open)) =
      [MysqlEnd 1, Console ErrorLevel ''Error closing RDS connection:'' (Some (DriverError ''socket hang up''))]"
    and "connections (snd (closeConnection stuck_mysql ''mysql_db_app_5'' two_open)) = connections two_open"
    and "tunnels (snd (closeConnection stuck_mysql ''mysql_db_app_5'' two_open)) = tunnels two_open"
    by (simp_all add: end_call_def)
  ultimately show ?thesis
    using pg tun res by simp
qed

section \<open>A failing transaction\<close>

lemma run_queries_fails:
  assumes "k < length qs"
    and "\<forall>i<k. \<exists>r. rows env (trace s @ statement_calls c (take i qs)) (statement_calls c qs ! i) = Inr r"
    and "rows env (trace s @ statement_calls c (take k qs)) (statement_calls c qs ! k) = Inl e"
  shows "run_queries env c qs acc s = (Inl e, s\<lparr>trace := trace s @ statement_calls c (take (Suc k) qs)\<rparr>)"
  using assms
proof (induction qs arbitrary: k s acc)
  case Nil
  then show ?case by simp
next
  case (Cons q qs)
  show ?case
  proof (cases k)
    case 0
    with Cons.prems(3) show ?thesis
      by (simp add: statement_calls_def ask_def emit_def)
  next
    case (Suc j)
    from Cons.prems(2) Suc obtain r where
      r: "rows env (trace s) (query_call c (sql q) (Statement.vals q)) = Inr r"
      by (auto simp: statement_calls_def)
    let ?s1 = "emit (query_call c (sql q) (Statement.vals q)) s"
    have j: "j < length qs"
      using Cons.prems(1) Suc by simp
    have before: "\<forall>i<j. \<exists>r. rows env (trace ?s1 @ statement_calls c (take i qs)) (statement_calls c qs ! i) = Inr r"
    proof (intro allI impI)
      fix i assume "i < j"
      with Cons.prems(2) [rule_format, of "Suc i"] Suc
      show "\<exists>r. rows env (trace ?s1 @ statement_calls c (take i qs)) (statement_calls c qs ! i) = Inr r"
        by (simp add: statement_calls_def trace_emit)
    qed
    have fails: "rows env (trace ?s1 @ statement_calls c (take j qs)) (statement_calls c qs ! j) = Inl e"
      using Cons.prems(3) Suc by (simp add: statement_calls_def trace_emit)
    from Cons.IH [OF j before fails, of "acc @ [r]"] r Suc show ?thesis
      by (simp add: ask_def statement_calls_def emit_def)
  qed
qed

text \<open>
  Claim C2, as amended. For a registered connection whose transaction has begun: when
  the statements before statement \<open>k\<close> succeed and statement \<open>k\<close> fails with \<open>e\<close>,
  the driver sees the begin, the statements up to and including \<open>k\<close> in the caller's
  order, then the rollback, and nothing else; no later statement is sent. The error
  raised to the caller is \<open>e\<close> when the rollback returns, and the rollback's own error
  when the rollback throws. The registries are untouched.
\<close>

theorem executeTransaction_failure:
  assumes "map_of (connections s) (TransactionParams.connectionId params) = Some c"
    and "effect env (trace s) (begin_call c) = None"
    and "k < length (queries params)"
    and "\<forall>i<k. \<exists>r. rows env (trace s @ begin_call c # statement_calls c (take i (queries params)))
                        (statement_calls c (queries params) ! i) = Inr r"
    and "rows env (trace s @ begin_call c # statement_calls c (take k (queries params)))
           (statement_calls c (queries params) ! k) = Inl e"
    and "executeTransaction env params s = (r, s')"
  shows "\<exists>final.
           r = Inl final \<and>
           final = (case effect env (trace s @ begin_call c # statement_calls c (take (Suc k) (queries params)))
                           (rollback_call c) of
                      None \<Rightarrow> e
                    | Some rollback_error \<Rightarrow> rollback_error) \<and>
           new_events s s' =
             begin_call c # statement_calls c (take (Suc k) (queries params))
               @ [rollback_call c, Console ErrorLevel ''Error executing transaction on RDS:'' (Some final)] \<and>
           connections s' = connections s \<and> tunnels s' = tunnels s"
proof -
  let ?s1 = "emit (begin_call c) s"
  have own: "lookup (connections s) (TransactionParams.connectionId params) = Own c"
    using assms(1) by (simp add: lookup_Own)
  have loop: "run_queries env c (queries params) [] ?s1 =
                (Inl e, ?s1\<lparr>trace := trace ?s1 @ statement_calls c (take (Suc k) (queries params))\<rparr>)"
    using assms(4,5) by (intro run_queries_fails [OF assms(3)]) (simp_all add: trace_emit)
  from assms(6) own assms(2) loop show ?thesis
    by (auto simp: executeTransaction_def try_body_def catch_log_def ask_def emit_def new_events_def
        split: option.splits)
qed

text \<open>
  Claim C2 as stated fails where the rollback throws: the second insert is refused with
  ``duplicate key'', the rollback then fails with ``connection lost'', and it is the
  rollback's error that reaches the caller. Nothing prints the rollback failure apart
  from the outer handler, which prints whatever error it re-raises.
\<close>

theorem executeTransaction_failure_counterexample:
  "rows refused_then_lost [MysqlBeginTransaction 1, MysqlQuery 1 ''INSERT 1'' []] (MysqlQuery 1 ''INSERT 2'' [])
     = Inl (DriverError ''duplicate key'') \<and>
   fst (executeTransaction refused_then_lost three_inserts two_open) = Inl (DriverError ''connection lost'') \<and>
   trace (snd (executeTransaction refused_then_lost three_inserts two_open)) =
     [MysqlBeginTransaction 1, MysqlQuery 1 ''INSERT 1'' [], MysqlQuery 1 ''INSERT 2'' [], MysqlRollback 1,
      Console ErrorLevel ''Error executing transaction on RDS:'' (Some (DriverError ''connection lost''))]"
  by (simp add: executeTransaction_def try_body_def lookup_def catch_log_def ask_def emit_def
      begin_call_def rollback_call_def commit_call_def query_call_def or_empty_def
      three_inserts_def two_open_def one_tunnel_def fresh_def calm_def refused_def refused_then_lost_def)

text \<open>The same three inserts where the rollback works: the third insert is never
  sent and the caller gets the second insert's error.\<close>

theorem executeTransaction_failure_witness:
  "fst (executeTransaction refused three_inserts two_open) = Inl (DriverError ''duplicate key'') \<and>
   new_events two_open (snd (executeTransaction refused three_inserts two_open)) =
     [MysqlBeginTransaction 1, MysqlQuery 1 ''INSERT 1'' [], MysqlQuery 1 ''INSERT 2'' [], MysqlRollback 1,
      Console ErrorLevel ''Error executing transaction on RDS:'' (Some (DriverError ''duplicate key''))]"
proof -
  let ?c = "\<lparr>connection = 1, engine = mysql, tunnelId = None\<rparr>"
  have reg: "map_of (connections two_open) (TransactionParams.connectionId three_inserts) = Some ?c"
    by (simp add: two_open_def three_inserts_def)
  have begins: "effect refused (trace two_open) (begin_call ?c) = None"
    by (simp add: refused_def calm_def)
  have k: "Suc 0 < length (queries three_inserts)"
    by (simp add: three_inserts_def)
  have before: "\<forall>i<Suc 0. \<exists>r. rows refused (trace two_open @ begin_call ?c # statement_calls ?c (take i (queries three_inserts)))
                        (statement_calls ?c (queries three_inserts) ! i) = Inr r"
    by (simp add: refused_def calm_def statement_calls_def three_inserts_def query_call_def or_empty_def)
  have fails: "rows refused (trace two_open @ begin_call ?c # statement_calls ?c (take (Suc 0) (queries three_inserts)))
           (statement_calls ?c (queries three_inserts) ! Suc 0) = Inl (DriverError ''duplicate key'')"
    by (simp add: refused_def calm_def statement_calls_def three_inserts_def query_call_def or_empty_def)
  have run: "executeTransaction refused three_inserts two_open =
      (fst (executeTransaction refused three_inserts two_open), snd (executeTransaction refused three_inserts two_open))"
    by simp
  from executeTransaction_failure [OF reg begins k before fails run]
  show ?thesis
    by (simp add: refused_def calm_def statement_calls_def three_inserts_def query_call_def or_empty_def
        begin_call_def rollback_call_def)
qed

section \<open>Creating a tunnel\<close>

lemma session_configs_append [simp]:
  "session_configs (a @ b) = session_configs a @ session_configs b"
  by (simp add: session_configs_def)

lemma token_requests_append [simp]:
  "token_requests (a @ b) = token_requests a @ token_requests b"
  by (simp add: token_requests_def)

lemma createTunnel_fails:
  assumes "createTunnel env tp s = (Inl e, s1)"
  shows "connections s1 = connections s \<and> tunnels s1 = tunnels s \<and>
         (\<exists>evs. trace s1 = trace s @ evs \<and> session_configs evs = [] \<and> token_requests evs = [])"
  using assms
  by (auto simp: createTunnel_def ask_def emit_def Let_def session_configs_def token_requests_def
      split: if_splits sum.splits option.splits prod.splits)

lemma createTunnel_succeeds:
  assumes "createTunnel env tp s = (Inr tunnel, s1)"
  shows "connections s1 = connections s \<and>
         tunnels s1 = AList.update (TunnelInfo.tunnelId tunnel) tunnel (tunnels s) \<and>
         localHost tunnel = ''127.0.0.1'' \<and>
         (\<exists>cfg rest. trace s1 = trace s @ SshConnect cfg # rest \<and>
            session_configs rest = [] \<and> token_requests rest = [] \<and> filter is_close_call rest = [])"
  using assms
  by (auto simp: createTunnel_def ask_def emit_def Let_def session_configs_def token_requests_def is_close_call_def
      split: if_splits sum.splits option.splits prod.splits)

section \<open>Facts about the connect calls\<close>

lemma truthy_bool_iff: "truthy_bool x \<longleftrightarrow> x = Some True"
  by (cases x) (auto simp: truthy_bool_def)

lemma session_configs_simps [simp]:
  "session_configs [] = []"
  "session_configs (e # evs) =
     (case e of MysqlCreateConnection c \<Rightarrow> [(mysql, c)] | PgConnect c \<Rightarrow> [(postgres, c)] | _ \<Rightarrow> [])
       @ session_configs evs"
  by (simp_all add: session_configs_def)

lemma token_requests_simps [simp]:
  "token_requests [] = []"
  "token_requests (e # evs) = (case e of SignerGetAuthToken p \<Rightarrow> [p] | _ \<Rightarrow> []) @ token_requests evs"
  by (simp_all add: token_requests_def)

lemmas tunneled_defs = connect_def connectToMySql_def connectToPostgres_def
  connectToMySqlWithTunnel_def connectToPostgresWithTunnel_def getAuthToken_def token_params_def
  catch_log_def ask_def emit_def Let_def new_events_def default_port_def

lemma truthy_tunnel_params:
  "tunnel_params params dflt = Some tp \<Longrightarrow> truthy_string (ConnectParams.sshHost params)"
  by (auto simp: tunnel_params_def split: if_splits)

lemma connect_token_requests:
  assumes "connect eng env params s = (r, s')"
  shows "\<forall>p \<in> set (token_requests (new_events s s')).
           hostname p = ConnectParams.host params \<and>
           AuthTokenParams.port p = or_default (ConnectParams.port params) (default_port eng) \<and>
           AuthTokenParams.username p = ConnectParams.user params"
proof (cases "truthy_string (ConnectParams.sshHost params)")
  case False
  with assms show ?thesis
    by (cases eng) (auto simp: tunneled_defs split: if_splits sum.splits prod.splits)
next
  case True
  show ?thesis
  proof (cases "tunnel_params params (default_port eng)")
    case None
    with assms True show ?thesis
      by (cases eng) (auto simp: tunneled_defs)
  next
    case (Some tp)
    obtain rt s1 where ct: "createTunnel env tp s = (rt, s1)"
      by (cases "createTunnel env tp s")
    show ?thesis
    proof (cases rt)
      case (Inl e)
      with ct createTunnel_fails [of env tp s e s1] obtain evs where
        "trace s1 = trace s @ evs" "token_requests evs = []"
        by auto
      with assms True Some ct Inl show ?thesis
        by (cases eng) (auto simp: tunneled_defs)
    next
      case (Inr tunnel)
      with ct createTunnel_succeeds [of env tp s tunnel s1] obtain cfg rest where
        "trace s1 = trace s @ SshConnect cfg # rest" "token_requests rest = []"
        by auto
      with assms True Some ct Inr show ?thesis
        by (cases eng) (auto simp: tunneled_defs split: if_splits sum.splits prod.splits)
    qed
  qed
qed

lemma connect_iam_through_tunnel:
  assumes "truthy_bool (useIAM params)"
    and "tunnel_params params (default_port eng) = Some tp"
    and "createTunnel env tp s = (Inr tunnel, s1)"
    and "connect eng env params s = (r, s')"
  shows "\<exists>req. token_requests (new_events s s') = [req] \<and>
           (case token env (trace s1) (SignerGetAuthToken req) of
              Inl e \<Rightarrow> r = Inl e \<and> session_configs (new_events s s') = []
            | Inr tok \<Rightarrow>
                \<exists>cfg. session_configs (new_events s s') = [(eng, cfg)] \<and>
                  AuthConfig.host cfg = localHost tunnel \<and>
                  AuthConfig.port cfg = TunnelInfo.localPort tunnel \<and>
                  AuthConfig.user cfg = ConnectParams.user params \<and>
                  AuthConfig.password cfg = tok \<and>
                  AuthConfig.database cfg = ConnectParams.database params \<and>
                  AuthConfig.ssl cfg = Some RejectUnauthorized)"
proof -
  from createTunnel_succeeds [OF assms(3)] obtain cfg rest where
    tr: "trace s1 = trace s @ SshConnect cfg # rest" "token_requests rest = []" "session_configs rest = []"
    by auto
  have via: "truthy_string (ConnectParams.sshHost params)"
    using assms(2) by (rule truthy_tunnel_params)
  from assms via tr show ?thesis
    by (cases eng) (auto simp: tunneled_defs split: if_splits sum.splits prod.splits)
qed

lemma connect_direct:
  assumes "\<not> truthy_string (ConnectParams.sshHost params)"
    and "connect eng env params s = (r, s')"
  shows "tunnels s' = tunnels s \<and> filter is_tunnel_call (new_events s s') = [] \<and>
         (\<forall>res. r = Inr res \<longrightarrow> \<not> viaTunnel res \<and> ConnectionResult.tunnelId res = None)"
  using assms
  by (cases eng)
     (auto simp: tunneled_defs is_tunnel_call_def split: if_splits sum.splits prod.splits)

lemma connect_via_tunnel:
  assumes "truthy_string (ConnectParams.sshHost params)"
  shows "connect eng env params s =
           (case eng of mysql \<Rightarrow> connectToMySqlWithTunnel | postgres \<Rightarrow> connectToPostgresWithTunnel)
             env params s"
  using assms by (cases eng) (simp_all add: connect_def connectToMySql_def connectToPostgres_def)

lemma connect_tunneled_success:
  assumes "truthy_string (ConnectParams.sshHost params)"
    and "connect eng env params s = (Inr res, s')"
  shows "viaTunnel res \<and>
         (\<exists>tp tunnel s1 cfg.
            tunnel_params params (default_port eng) = Some tp \<and>
            createTunnel env tp s = (Inr tunnel, s1) \<and>
            ConnectionResult.tunnelId res = Some (TunnelInfo.tunnelId tunnel) \<and>
            map_of (tunnels s') (TunnelInfo.tunnelId tunnel) = Some tunnel \<and>
            session_configs (new_events s s1) = [] \<and>
            session_configs (new_events s1 s') = [(eng, cfg)] \<and>
            AuthConfig.host cfg = localHost tunnel \<and>
            AuthConfig.port cfg = TunnelInfo.localPort tunnel)"
proof (cases "tunnel_params params (default_port eng)")
  case None
  with assms show ?thesis
    by (cases eng) (auto simp: tunneled_defs)
next
  case (Some tp)
  obtain rt s1 where ct: "createTunnel env tp s = (rt, s1)"
    by (cases "createTunnel env tp s")
  show ?thesis
  proof (cases rt)
    case (Inl e)
    with assms Some ct show ?thesis
      by (cases eng) (auto simp: tunneled_defs)
  next
    case (Inr tunnel)
    with ct createTunnel_succeeds [of env tp s tunnel s1] obtain cfg rest where
      made: "tunnels s1 = AList.update (TunnelInfo.tunnelId tunnel) tunnel (tunnels s)"
        "trace s1 = trace s @ SshConnect cfg # rest" "session_configs rest = []"
      by auto
    then have reg: "map_of (tunnels s1) (TunnelInfo.tunnelId tunnel) = Some tunnel"
      "session_configs (new_events s s1) = []"
      by (simp_all add: update_conv' new_events_def)
    from assms Some ct Inr reg show ?thesis
      by (cases eng)
         (auto simp: tunneled_defs split: if_splits sum.splits prod.splits)
  qed
qed

lemmas run_defs = tunneled_defs createTunnel_def tunnel_params_def truthy_string_def truthy_bool_def
  truthy_key_def or_default_def calm_def fresh_def ssl_policy_def direct_request_def tunneled_request_def
  iam_request_def empty_host_request_def unreachable_db_def same_millisecond_def second_refused_def

text \<open>
  Claim C9 as stated fails: the caller passes \<^verbatim>\<open>ssl: false\<close>, the environment has
  \<^verbatim>\<open>RDS_SSL=true\<close>, and the session is opened with \<^verbatim>\<open>ssl: true\<close>.
\<close>

theorem postgres_ssl_setting_counterexample:
  "ConnectParams.ssl direct_request = Some False \<and> useIAM direct_request = None \<and>
   session_configs (trace (snd (connectToPostgres ssl_policy direct_request fresh))) =
     [(postgres, \<lparr>AuthConfig.host = ''db.internal'', port = 5432, user = ''app'', password = ''secret'',
                   database = ''shop'', ssl = Some (Ssl True), authPlugins = False\<rparr>)]"
  by (simp add: run_defs)

text \<open>
  Claim C9, as amended. For every PostgreSQL connect without IAM, direct or tunneled,
  each session the call opens has \<^verbatim>\<open>ssl\<close> on exactly when the caller's flag is
  \<^verbatim>\<open>true\<close> or \<^verbatim>\<open>RDS_SSL\<close> is the string \<^verbatim>\<open>true\<close>: a flag that is omitted or
  \<^verbatim>\<open>false\<close> falls back to the environment's policy. The direct path opens exactly one
  session, and so does every call that succeeds.
\<close>

theorem postgres_ssl_setting:
  assumes "\<not> truthy_bool (useIAM params)" and "connectToPostgres env params s = (r, s')"
  shows "(\<forall>(eng, cfg) \<in> set (session_configs (new_events s s')).
            eng = postgres \<and>
            AuthConfig.ssl cfg = Some (Ssl (ConnectParams.ssl params = Some True \<or> RDS_SSL env = Some ''true''))) \<and>
         (\<not> truthy_string (ConnectParams.sshHost params) \<or> (\<exists>res. r = Inr res) \<longrightarrow>
            length (session_configs (new_events s s')) = 1)"
proof (cases "truthy_string (ConnectParams.sshHost params)")
  case False
  with assms show ?thesis
    by (auto simp: tunneled_defs truthy_bool_iff split: if_splits sum.splits prod.splits)
next
  case True
  show ?thesis
  proof (cases "tunnel_params params 5432")
    case None
    with assms True show ?thesis
      by (auto simp: tunneled_defs)
  next
    case (Some tp)
    obtain rt s1 where ct: "createTunnel env tp s = (rt, s1)"
      by (cases "createTunnel env tp s")
    show ?thesis
    proof (cases rt)
      case (Inl e)
      with ct createTunnel_fails [of env tp s e s1] obtain evs where
        "trace s1 = trace s @ evs" "session_configs evs = []"
        by auto
      with assms True Some ct Inl show ?thesis
        by (auto simp: tunneled_defs)
    next
      case (Inr tunnel)
      with ct createTunnel_succeeds [of env tp s tunnel s1] obtain cfg rest where
        "trace s1 = trace s @ SshConnect cfg # rest" "session_configs rest = []"
        by auto
      with assms True Some ct Inr show ?thesis
        by (auto simp: tunneled_defs truthy_bool_iff split: if_splits sum.splits prod.splits)
    qed
  qed
qed

text \<open>A tunneled PostgreSQL connect that omits the flag, under \<^verbatim>\<open>RDS_SSL=true\<close>:
  one session, with \<^verbatim>\<open>ssl: true\<close>.\<close>

theorem postgres_ssl_setting_witness:
  "\<not> truthy_bool (useIAM tunneled_request) \<and> ConnectParams.ssl tunneled_request = None \<and>
   (\<exists>cfg. session_configs (new_events fresh (snd (connectToPostgres ssl_policy tunneled_request fresh)))
            = [(postgres, cfg)] \<and> AuthConfig.ssl cfg = Some (Ssl True))"
proof -
  let ?out = "connectToPostgres ssl_policy tunneled_request fresh"
  have plain: "\<not> truthy_bool (useIAM tunneled_request)" "ConnectParams.ssl tunneled_request = None"
    by (simp_all add: run_defs)
  have ok: "\<exists>res. fst ?out = Inr res"
    by (simp add: run_defs)
  have policy: "RDS_SSL ssl_policy = Some ''true''"
    by (simp add: ssl_policy_def)
  have run: "?out = (fst ?out, snd ?out)"
    by simp
  from postgres_ssl_setting [OF plain(1) run] ok policy
  have each: "\<forall>(eng, cfg) \<in> set (session_configs (new_events fresh (snd ?out))).
                eng = postgres \<and> AuthConfig.ssl cfg = Some (Ssl True)"
    and one: "length (session_configs (new_events fresh (snd ?out))) = 1"
    by simp_all
  from one obtain eng cfg where only: "session_configs (new_events fresh (snd ?out)) = [(eng, cfg)]"
    by (cases "session_configs (new_events fresh (snd ?out))") auto
  with each have "eng = postgres" "AuthConfig.ssl cfg = Some (Ssl True)"
    by simp_all
  with only plain show ?thesis
    by simp
qed

text \<open>
  Claim C5. Every token request a connect makes names the caller's database host, the
  caller's port (or the engine's default port when none is given) and the caller's user.
  In a tunneled connect with \<^verbatim>\<open>useIAM\<close>, once the tunnel exists, exactly one token is
  requested; if the signer fails the call fails with its error and no session is
  opened; otherwise exactly one session is opened, against the tunnel's local host and
  port, with the token as password and \<^verbatim>\<open>ssl: { rejectUnauthorized: true }\<close>.
\<close>

theorem iam_token_for_original_endpoint:
  assumes "connect eng env params s = (r, s')"
  shows "(\<forall>p \<in> set (token_requests (new_events s s')).
            hostname p = ConnectParams.host params \<and>
            AuthTokenParams.port p = or_default (ConnectParams.port params) (default_port eng) \<and>
            AuthTokenParams.username p = ConnectParams.user params) \<and>
         (\<forall>tp tunnel s1.
            truthy_bool (useIAM params) \<and> tunnel_params params (default_port eng) = Some tp \<and>
            createTunnel env tp s = (Inr tunnel, s1) \<longrightarrow>
            (\<exists>req. token_requests (new_events s s') = [req] \<and>
               (case token env (trace s1) (SignerGetAuthToken req) of
                  Inl e \<Rightarrow> r = Inl e \<and> session_configs (new_events s s') = []
                | Inr tok \<Rightarrow>
                    \<exists>cfg. session_configs (new_events s s') = [(eng, cfg)] \<and>
                      AuthConfig.host cfg = localHost tunnel \<and>
                      AuthConfig.port cfg = TunnelInfo.localPort tunnel \<and>
                      AuthConfig.user cfg = ConnectParams.user params \<and>
                      AuthConfig.password cfg = tok \<and>
                      AuthConfig.database cfg = ConnectParams.database params \<and>
                      AuthConfig.ssl cfg = Some RejectUnauthorized)))"
  using connect_token_requests [OF assms] connect_iam_through_tunnel [OF _ _ _ assms]
  by blast

text \<open>A tunneled MySQL connect with IAM in a calm world: the token is requested for
  \<^verbatim>\<open>db.internal:3306\<close>, and the session is opened against \<^verbatim>\<open>127.0.0.1:40002\<close>,
  where the tunnel listens, with the token as password.\<close>

theorem iam_token_for_original_endpoint_witness:
  "truthy_bool (useIAM iam_request) \<and>
   (\<exists>req. token_requests (new_events fresh (snd (connect mysql calm iam_request fresh))) = [req] \<and>
      hostname req = ''db.internal'' \<and> AuthTokenParams.port req = 3306 \<and> AuthTokenParams.username req = ''app'') \<and>
   (\<exists>cfg. session_configs (new_events fresh (snd (connect mysql calm iam_request fresh))) = [(mysql, cfg)] \<and>
      AuthConfig.host cfg = ''127.0.0.1'' \<and> AuthConfig.port cfg = 40002 \<and>
      AuthConfig.password cfg = ''iam-token'')"
proof -
  let ?out = "connect mysql calm iam_request fresh"
  let ?tp = "\<lparr>TunnelParams.sshHost = ''bastion'', sshPort = None, sshUsername = ''ec2-user'',
              sshPassword = Some ''pw'', sshPrivateKey = None, dbHost = ''db.internal'', dbPort = 3306,
              localPort = Some 0\<rparr>"
  let ?tunnel = "\<lparr>sshClient = 0, server = 2, localHost = ''127.0.0.1'', localPort = 40002,
              dbHost = ''db.internal'', dbPort = 3306, tunnelId = ''tunnel_4''\<rparr>"
  have iam: "truthy_bool (useIAM iam_request)"
    by (simp add: run_defs)
  have tp: "tunnel_params iam_request (default_port mysql) = Some ?tp"
    by (simp add: run_defs)
  have ct: "createTunnel calm ?tp fresh = (Inr ?tunnel, snd (createTunnel calm ?tp fresh))"
    by (simp add: run_defs digits.simps)
  have run: "?out = (fst ?out, snd ?out)"
    by simp
  note endpoint = iam_token_for_original_endpoint [OF run]
  from endpoint have each: "\<forall>p \<in> set (token_requests (new_events fresh (snd ?out))).
            hostname p = ConnectParams.host iam_request \<and>
            AuthTokenParams.port p = or_default (ConnectParams.port iam_request) (default_port mysql) \<and>
            AuthTokenParams.username p = ConnectParams.user iam_request"
    by (rule conjunct1)
  from endpoint iam tp ct obtain req where
    req: "token_requests (new_events fresh (snd ?out)) = [req]"
    and after: "case token calm (trace (snd (createTunnel calm ?tp fresh))) (SignerGetAuthToken req) of
                  Inl e \<Rightarrow> fst ?out = Inl e \<and> session_configs (new_events fresh (snd ?out)) = []
                | Inr tok \<Rightarrow>
                    \<exists>cfg. session_configs (new_events fresh (snd ?out)) = [(mysql, cfg)] \<and>
                      AuthConfig.host cfg = localHost ?tunnel \<and>
                      AuthConfig.port cfg = TunnelInfo.localPort ?tunnel \<and>
                      AuthConfig.user cfg = ConnectParams.user iam_request \<and>
                      AuthConfig.password cfg = tok \<and>
                      AuthConfig.database cfg = ConnectParams.database iam_request \<and>
                      AuthConfig.ssl cfg = Some RejectUnauthorized"
    by blast
  have "token calm (trace (snd (createTunnel calm ?tp fresh))) (SignerGetAuthToken req) = Inr ''iam-token''"
    by (simp add: calm_def)
  with after have session: "\<exists>cfg. session_configs (new_events fresh (snd ?out)) = [(mysql, cfg)] \<and>
      AuthConfig.host cfg = ''127.0.0.1'' \<and> AuthConfig.port cfg = 40002 \<and>
      AuthConfig.password cfg = ''iam-token''"
    by auto
  from each req have "hostname req = ''db.internal'' \<and> AuthTokenParams.port req = 3306 \<and>
      AuthTokenParams.username req = ''app''"
    by (simp add: direct_request_def tunneled_request_def iam_request_def or_default_def default_port_def)
  with iam req session show ?thesis
    by blast
qed

section \<open>Direct or tunneled\<close>

text \<open>
  Claim C6 as stated fails for a request whose \<^verbatim>\<open>sshHost\<close> is present and empty: the
  guard \<^verbatim>\<open>if (params.sshHost)\<close> is false for the empty string, so the direct path is
  taken, no tunnel is created and the result has \<^verbatim>\<open>viaTunnel: false\<close>.
\<close>

theorem connect_routing_counterexample:
  "ConnectParams.sshHost empty_host_request = Some [] \<and>
   fst (connect mysql calm empty_host_request fresh) =
     Inr \<lparr>ConnectionResult.connectionId = ''mysql_db.internal_shop_1'', engine = mysql, connected = True,
          viaTunnel = False, tunnelId = None\<rparr> \<and>
   tunnels (snd (connect mysql calm empty_host_request fresh)) = [] \<and>
   trace (snd (connect mysql calm empty_host_request fresh)) =
     [MysqlCreateConnection \<lparr>AuthConfig.host = ''db.internal'', port = 3306, user = ''app'',
        password = ''secret'', database = ''shop'', ssl = None, authPlugins = False\<rparr>, DateNow]"
  by (simp add: run_defs digits.simps)

text \<open>
  Claim C6, as amended. For every connect call of either engine: if \<^verbatim>\<open>sshHost\<close> is
  absent or empty the direct path is taken, no tunnel call is made, the tunnel registry
  is unchanged and a result has \<^verbatim>\<open>viaTunnel\<close> false and no tunnel id; if \<^verbatim>\<open>sshHost\<close>
  is a non-empty string the call is the tunneled connect, and a result has
  \<^verbatim>\<open>viaTunnel\<close> true and the id of a tunnel that was created first (no session is
  opened while it is set up), is registered, and whose local host and port are the
  target of the one session opened afterwards.
\<close>

theorem connect_routing:
  assumes "connect eng env params s = (r, s')"
  shows "(\<not> truthy_string (ConnectParams.sshHost params) \<longrightarrow>
            tunnels s' = tunnels s \<and> filter is_tunnel_call (new_events s s') = [] \<and>
            (\<forall>res. r = Inr res \<longrightarrow> \<not> viaTunnel res \<and> ConnectionResult.tunnelId res = None)) \<and>
         (truthy_string (ConnectParams.sshHost params) \<longrightarrow>
            (r, s') = (case eng of mysql \<Rightarrow> connectToMySqlWithTunnel
                                 | postgres \<Rightarrow> connectToPostgresWithTunnel) env params s \<and>
            (\<forall>res. r = Inr res \<longrightarrow>
               viaTunnel res \<and>
               (\<exists>tp tunnel s1 cfg.
                  tunnel_params params (default_port eng) = Some tp \<and>
                  createTunnel env tp s = (Inr tunnel, s1) \<and>
                  ConnectionResult.tunnelId res = Some (TunnelInfo.tunnelId tunnel) \<and>
                  map_of (tunnels s') (TunnelInfo.tunnelId tunnel) = Some tunnel \<and>
                  session_configs (new_events s s1) = [] \<and>
                  session_configs (new_events s1 s') = [(eng, cfg)] \<and>
                  AuthConfig.host cfg = localHost tunnel \<and>
                  AuthConfig.port cfg = TunnelInfo.localPort tunnel)))"
proof (cases "truthy_string (ConnectParams.sshHost params)")
  case False
  with connect_direct [OF False assms] show ?thesis
    by simp
next
  case True
  have "(r, s') = (case eng of mysql \<Rightarrow> connectToMySqlWithTunnel
                                 | postgres \<Rightarrow> connectToPostgresWithTunnel) env params s"
    using connect_via_tunnel [OF True, of eng env s] assms by simp
  moreover have "viaTunnel res \<and>
               (\<exists>tp tunnel s1 cfg.
                  tunnel_params params (default_port eng) = Some tp \<and>
                  createTunnel env tp s = (Inr tunnel, s1) \<and>
                  ConnectionResult.tunnelId res = Some (TunnelInfo.tunnelId tunnel) \<and>
                  map_of (tunnels s') (TunnelInfo.tunnelId tunnel) = Some tunnel \<and>
                  session_configs (new_events s s1) = [] \<and>
                  session_configs (new_events s1 s') = [(eng, cfg)] \<and>
                  AuthConfig.host cfg = localHost tunnel \<and>
                  AuthConfig.port cfg = TunnelInfo.localPort tunnel)"
    if "r = Inr res" for res
    using connect_tunneled_success [OF True, of eng env s res s'] assms that by simp
  ultimately show ?thesis
    using True by blast
qed

text \<open>Two PostgreSQL connects in a calm world: the one without \<^verbatim>\<open>sshHost\<close> creates
  no tunnel and reports \<^verbatim>\<open>viaTunnel: false\<close>; the one through the bastion reports
  \<^verbatim>\<open>viaTunnel: true\<close> and the id of a registered tunnel.\<close>

theorem connect_routing_witness:
  "\<not> truthy_string (ConnectParams.sshHost direct_request) \<and>
   tunnels (snd (connect postgres calm direct_request fresh)) = [] \<and>
   (\<exists>res. fst (connect postgres calm direct_request fresh) = Inr res \<and> \<not> viaTunnel res) \<and>
   truthy_string (ConnectParams.sshHost tunneled_request) \<and>
   (\<exists>res tid. fst (connect postgres calm tunneled_request fresh) = Inr res \<and> viaTunnel res \<and>
       ConnectionResult.tunnelId res = Some tid \<and>
       map_of (tunnels (snd (connect postgres calm tunneled_request fresh))) tid \<noteq> None)"
proof -
  let ?direct = "connect postgres calm direct_request fresh"
  let ?tunneled = "connect postgres calm tunneled_request fresh"
  have absent: "\<not> truthy_string (ConnectParams.sshHost direct_request)"
    and present: "truthy_string (ConnectParams.sshHost tunneled_request)"
    by (simp_all add: direct_request_def tunneled_request_def truthy_string_def)
  obtain res1 where res1: "fst ?direct = Inr res1"
    by (simp add: run_defs)
  obtain res2 where res2: "fst ?tunneled = Inr res2"
    by (simp add: run_defs)
  have run1: "?direct = (fst ?direct, snd ?direct)" and run2: "?tunneled = (fst ?tunneled, snd ?tunneled)"
    by simp_all
  from connect_routing [OF run1] absent res1
  have direct: "tunnels (snd ?direct) = tunnels fresh" "\<not> viaTunnel res1"
    by simp_all
  from connect_routing [OF run2] present res2
  obtain tunnel where "viaTunnel res2" "ConnectionResult.tunnelId res2 = Some (TunnelInfo.tunnelId tunnel)"
    "map_of (tunnels (snd ?tunneled)) (TunnelInfo.tunnelId tunnel) = Some tunnel"
    by auto
  with absent present direct res1 res2 show ?thesis
    by (auto simp: fresh_def)
qed

section \<open>A tunnel left behind by a failed connect\<close>







section \<open>Unknown connection ids\<close>

lemma unknown_connection_not_found:
  assumes "map_of (connections s) cid = None" and "cid \<notin> set Object_prototype"
  shows "fst (executeQuery env \<lparr>QueryParams.connectionId = cid, query = q, QueryParams.vals = vs\<rparr> s) =
           Inl (Error (''Connection '' @ cid @ '' not found or closed''))"
    and "fst (executeTransaction env \<lparr>TransactionParams.connectionId = cid, queries = qs\<rparr> s) =
           Inl (Error (''Connection '' @ cid @ '' not found or closed''))"
    and "fst (closeConnection env cid s) =
           Inl (Error (''Connection '' @ cid @ '' not found or already closed''))"
  using assms
  by (simp_all add: executeQuery_def executeTransaction_def closeConnection_def lookup_def catch_log_def)

lemma query_after_close:
  assumes "closeConnection env cid s = (Inr res, s')" and "cid \<notin> set Object_prototype"
  shows "fst (executeQuery env \<lparr>QueryParams.connectionId = cid, query = q, QueryParams.vals = vs\<rparr> s') =
           Inl (Error (''Connection '' @ cid @ '' not found or closed''))"
proof -
  from closeConnection_returns [OF assms(1)] have "map_of (connections s') cid = None"
    by (simp add: map_of_delete_same)
  from unknown_connection_not_found(1) [OF this assms(2)] show ?thesis .
qed

text \<open>
  Claim C7 at a name that every JavaScript object inherits. The registry is empty, so
  \<^verbatim>\<open>constructor\<close> is absent from it; yet \<^verbatim>\<open>this.connections['constructor']\<close> is the
  inherited \<^verbatim>\<open>Object\<close> function, the guard \<^verbatim>\<open>if (!this.connections[connectionId])\<close>
  lets it pass, and each of the three operations fails with a \<^verbatim>\<open>TypeError\<close> for reading
  a method of \<^verbatim>\<open>undefined\<close>, not with the ``not found'' error that names the id. For
  every other absent id the three operations do raise that error (lemma
  \<open>unknown_connection_not_found\<close>), also after a close (lemma \<open>query_after_close\<close>).
\<close>

theorem inherited_name_not_found:
  "map_of (connections fresh) ''constructor'' = None \<and>
   fst (executeQuery calm \<lparr>QueryParams.connectionId = ''constructor'', query = ''SELECT 1'',
          QueryParams.vals = None\<rparr> fresh) = Inl (TypeError ''query'') \<and>
   fst (executeTransaction calm \<lparr>TransactionParams.connectionId = ''constructor'',
          queries = [\<lparr>sql = ''SELECT 1'', Statement.vals = None\<rparr>]\<rparr> fresh) = Inl (TypeError ''query'') \<and>
   fst (closeConnection calm ''constructor'' fresh) = Inl (TypeError ''end'')"
  by (simp add: executeQuery_def executeTransaction_def closeConnection_def lookup_def Object_prototype_def
      catch_log_def fresh_def)

section \<open>Connection ids\<close>

lemma digits_nonempty: "digits n \<noteq> []"
  by (subst digits.simps) simp

lemma digit_chars: "k < 10 \<Longrightarrow> ''0123456789'' ! k \<in> set ''0123456789''"
  by (rule nth_mem) simp

lemma digits_chars: "set (digits n) \<subseteq> set ''0123456789''"
proof (induction n rule: digits.induct)
  case (1 n)
  show ?case
  proof (cases "n < 10")
    case True
    then show ?thesis
      using digit_chars [of n] by (subst digits.simps) simp
  next
    case False
    have "n mod 10 < 10" by simp
    with False 1 digit_chars [of "n mod 10"] show ?thesis
      by (subst digits.simps) auto
  qed
qed

lemma digits_no_underscore: "CHR ''_'' \<notin> set (digits n)"
  using digits_chars [of n] by auto

lemma digit_inj: "a < 10 \<Longrightarrow> b < 10 \<Longrightarrow> ''0123456789'' ! a = ''0123456789'' ! b \<Longrightarrow> a = b"
proof -
  have "distinct ''0123456789''" by simp
  moreover assume "a < 10" "b < 10" "''0123456789'' ! a = ''0123456789'' ! b"
  ultimately show "a = b"
    by (simp add: nth_eq_iff_index_eq)
qed

lemma digits_inj: "digits a = digits b \<Longrightarrow> a = b"
proof (induction a arbitrary: b rule: digits.induct)
  case (1 a)
  show ?case
  proof (cases "a < 10")
    case small: True
    show ?thesis
    proof (cases "b < 10")
      case True
      with small "1.prems" show ?thesis
        by (simp add: digits.simps [of a] digits.simps [of b] digit_inj)
    next
      case False
      with small "1.prems" digits_nonempty [of "b div 10"] show ?thesis
        by (simp add: digits.simps [of a] digits.simps [of b])
    qed
  next
    case big: False
    show ?thesis
    proof (cases "b < 10")
      case True
      with big "1.prems" digits_nonempty [of "a div 10"] show ?thesis
        by (simp add: digits.simps [of a] digits.simps [of b])
    next
      case False
      with big "1.prems" have "digits (a div 10) = digits (b div 10)"
        and "''0123456789'' ! (a mod 10) = ''0123456789'' ! (b mod 10)"
        by (simp_all add: digits.simps [of a] digits.simps [of b])
      with "1.IH" [OF big] have "a div 10 = b div 10" "a mod 10 = b mod 10"
        by (simp_all add: digit_inj)
      then show ?thesis
        by (metis div_mult_mod_eq)
    qed
  qed
qed

lemma stamp_suffix:
  assumes "p @ ''_'' @ digits a = q @ ''_'' @ digits b"
  shows "a = b"
proof -
  define last_part :: "string \<Rightarrow> string" where
    "last_part xs = rev (takeWhile (\<lambda>c. c \<noteq> CHR ''_'') (rev xs))" for xs
  have whole: "takeWhile (\<lambda>c. c \<noteq> CHR ''_'') (rev (digits n)) = rev (digits n)" for n
    using digits_no_underscore [of n] by (auto simp: takeWhile_eq_all_conv)
  have part: "last_part (x @ ''_'' @ digits n) = digits n" for x n
    unfolding last_part_def using digits_no_underscore [of n] by (simp add: takeWhile_tail whole)
  have "last_part (p @ ''_'' @ digits a) = last_part (q @ ''_'' @ digits b)"
    by (simp only: assms)
  then have "digits a = digits b"
    by (simp only: part)
  then show ?thesis
    by (rule digits_inj)
qed

lemma eq_snoc_iff: "ys = xs @ [x] \<longleftrightarrow> ys \<noteq> [] \<and> butlast ys = xs \<and> last ys = x"
  using snoc_eq_iff_butlast [of xs x ys] by auto

lemma connect_success_stamp:
  assumes "connect eng env params s = (Inr res, s')"
  shows "\<exists>evs.
           trace s' = trace s @ evs @ [DateNow] \<and>
           ConnectionResult.connectionId res =
             ((case eng of mysql \<Rightarrow> ''mysql'' | postgres \<Rightarrow> ''postgres'')
               @ (if truthy_string (ConnectParams.sshHost params) then ''_ssh_'' else ''_'')
               @ ConnectParams.host params @ ''_'' @ ConnectParams.database params)
             @ ''_'' @ digits (now env (trace s @ evs)) \<and>
           map_of (connections s') (ConnectionResult.connectionId res) \<noteq> None \<and>
           (\<forall>k. k \<noteq> ConnectionResult.connectionId res \<longrightarrow>
                map_of (connections s') k = map_of (connections s) k)"
proof (cases "truthy_string (ConnectParams.sshHost params)")
  case False
  with assms show ?thesis
    by (cases eng)
       (auto simp: tunneled_defs update_conv' eq_snoc_iff split: if_splits sum.splits prod.splits)
next
  case True
  show ?thesis
  proof (cases "tunnel_params params (default_port eng)")
    case None
    with assms True show ?thesis
      by (cases eng) (auto simp: tunneled_defs)
  next
    case (Some tp)
    obtain rt s1 where ct: "createTunnel env tp s = (rt, s1)"
      by (cases "createTunnel env tp s")
    show ?thesis
    proof (cases rt)
      case (Inl e)
      with assms True Some ct show ?thesis
        by (cases eng) (auto simp: tunneled_defs)
    next
      case (Inr tunnel)
      with ct createTunnel_succeeds [of env tp s tunnel s1] obtain cfg rest where
        "connections s1 = connections s" "trace s1 = trace s @ SshConnect cfg # rest"
        by auto
      with assms True Some ct Inr show ?thesis
        by (cases eng)
           (auto simp: tunneled_defs update_conv' eq_snoc_iff butlast_append
              split: if_splits sum.splits prod.splits)
    qed
  qed
qed

text \<open>
  Claim C4 as stated fails when two calls read the same millisecond: two direct MySQL
  connects with identical parameters both succeed, both return the id
  \<^verbatim>\<open>mysql_db.internal_shop_1700000000000\<close>, and the registry, which held the first
  session under that id, afterwards holds only the second.
\<close>

theorem distinct_connection_ids_counterexample:
  "fst (connect mysql same_millisecond direct_request fresh) =
     Inr \<lparr>ConnectionResult.connectionId = ''mysql_db.internal_shop_1700000000000'', engine = mysql,
          connected = True, viaTunnel = False, tunnelId = None\<rparr> \<and>
   connections (snd (connect mysql same_millisecond direct_request fresh)) =
     [(''mysql_db.internal_shop_1700000000000'', \<lparr>connection = 0, engine = mysql, tunnelId = None\<rparr>)] \<and>
   fst (connect mysql same_millisecond direct_request (snd (connect mysql same_millisecond direct_request fresh))) =
     Inr \<lparr>ConnectionResult.connectionId = ''mysql_db.internal_shop_1700000000000'', engine = mysql,
          connected = True, viaTunnel = False, tunnelId = None\<rparr> \<and>
   connections (snd (connect mysql same_millisecond direct_request
                       (snd (connect mysql same_millisecond direct_request fresh)))) =
     [(''mysql_db.internal_shop_1700000000000'', \<lparr>connection = 2, engine = mysql, tunnelId = None\<rparr>)]"
  by (simp add: run_defs digits.simps)

text \<open>
  Claim C4, as amended. A successful connect reads the clock as its last outside call,
  so the events before that reading are its final record without the last event. For
  every two successful connect calls, of either engine, direct or tunneled, with
  whatever parameters and from whatever states, each id is registered by its call; if
  the two clock readings differ, the two connection ids differ and the second call
  leaves the entry under the first id as it found it; if the engines and the parameters
  are the same and the two readings are equal, the two ids are equal.
\<close>

theorem distinct_connection_ids:
  assumes "connect eng1 env params1 sa = (Inr res1, s1)"
    and "connect eng2 env params2 sb = (Inr res2, s2)"
  shows "last (trace s1) = DateNow \<and> last (trace s2) = DateNow \<and>
         map_of (connections s1) (ConnectionResult.connectionId res1) \<noteq> None \<and>
         map_of (connections s2) (ConnectionResult.connectionId res2) \<noteq> None \<and>
         (now env (butlast (trace s1)) \<noteq> now env (butlast (trace s2)) \<longrightarrow>
            ConnectionResult.connectionId res1 \<noteq> ConnectionResult.connectionId res2 \<and>
            map_of (connections s2) (ConnectionResult.connectionId res1) =
              map_of (connections sb) (ConnectionResult.connectionId res1)) \<and>
         (eng1 = eng2 \<and> params1 = params2 \<and> now env (butlast (trace s1)) = now env (butlast (trace s2)) \<longrightarrow>
            ConnectionResult.connectionId res1 = ConnectionResult.connectionId res2)"
proof -
  let ?prefix = "\<lambda>eng params. (case eng of mysql \<Rightarrow> ''mysql'' | postgres \<Rightarrow> ''postgres'')
               @ (if truthy_string (ConnectParams.sshHost params) then ''_ssh_'' else ''_'')
               @ ConnectParams.host params @ ''_'' @ ConnectParams.database params"
  from connect_success_stamp [OF assms(1)] obtain evs1 where
    one: "trace s1 = trace sa @ evs1 @ [DateNow]"
      "ConnectionResult.connectionId res1 = ?prefix eng1 params1 @ ''_'' @ digits (now env (trace sa @ evs1))"
      "map_of (connections s1) (ConnectionResult.connectionId res1) \<noteq> None"
    by blast
  from connect_success_stamp [OF assms(2)] obtain evs2 where
    two: "trace s2 = trace sb @ evs2 @ [DateNow]"
      "ConnectionResult.connectionId res2 = ?prefix eng2 params2 @ ''_'' @ digits (now env (trace sb @ evs2))"
      "map_of (connections s2) (ConnectionResult.connectionId res2) \<noteq> None"
      "\<forall>k. k \<noteq> ConnectionResult.connectionId res2 \<longrightarrow>
                map_of (connections s2) k = map_of (connections sb) k"
    by blast
  have hist: "butlast (trace s1) = trace sa @ evs1" "butlast (trace s2) = trace sb @ evs2"
    and final: "last (trace s1) = DateNow" "last (trace s2) = DateNow"
    by (simp_all add: one(1) two(1) butlast_append)
  have differ: "ConnectionResult.connectionId res1 \<noteq> ConnectionResult.connectionId res2"
    if "now env (butlast (trace s1)) \<noteq> now env (butlast (trace s2))"
  proof -
    from that have "now env (trace sa @ evs1) \<noteq> now env (trace sb @ evs2)"
      unfolding hist .
    with one(2) two(2) show ?thesis
      using stamp_suffix by metis
  qed
  have same: "ConnectionResult.connectionId res1 = ConnectionResult.connectionId res2"
    if "eng1 = eng2" "params1 = params2" "now env (butlast (trace s1)) = now env (butlast (trace s2))"
    using that one(2) two(2) unfolding hist by simp
  from final one(3) two(3,4) differ same show ?thesis
    by simp
qed

text \<open>Two direct MySQL connects with identical parameters, one right after the other,
  in a calm world, whose clock advances with every event: the ids differ and the first
  id is still registered after the second call.\<close>

theorem distinct_connection_ids_witness:
  "(\<exists>res1 res2.
      fst (connect mysql calm direct_request fresh) = Inr res1 \<and>
      fst (connect mysql calm direct_request (snd (connect mysql calm direct_request fresh))) = Inr res2 \<and>
      ConnectionResult.connectionId res1 \<noteq> ConnectionResult.connectionId res2 \<and>
      map_of (connections (snd (connect mysql calm direct_request (snd (connect mysql calm direct_request fresh)))))
        (ConnectionResult.connectionId res1) \<noteq> None)"
proof -
  let ?first = "connect mysql calm direct_request fresh"
  let ?second = "connect mysql calm direct_request (snd ?first)"
  obtain res1 where res1: "fst ?first = Inr res1"
    by (simp add: run_defs)
  obtain res2 where res2: "fst ?second = Inr res2"
    by (simp add: run_defs)
  from res1 have run1: "?first = (Inr res1, snd ?first)"
    by (simp add: prod_eq_iff)
  from res2 have run2: "?second = (Inr res2, snd ?second)"
    by (simp add: prod_eq_iff)
  have readings: "now calm (butlast (trace (snd ?first))) \<noteq> now calm (butlast (trace (snd ?second)))"
    by (simp add: run_defs)
  from distinct_connection_ids [OF run1 run2] readings
  have "ConnectionResult.connectionId res1 \<noteq> ConnectionResult.connectionId res2"
    and "map_of (connections (snd ?second)) (ConnectionResult.connectionId res1) =
         map_of (connections (snd ?first)) (ConnectionResult.connectionId res1)"
    and "map_of (connections (snd ?first)) (ConnectionResult.connectionId res1) \<noteq> None"
    by simp_all
  with res1 res2 show ?thesis
    by auto
qed

end
